theory Spec2Isabelle
  imports Complex_Main "HOL-Library.AList"
begin

section \<open>Python values, errors and tensors\<close>

text \<open>
  The circuit classes of \<^verbatim>\<open>qibo/core/circuit.py\<close> are embedded with explicit state
  passing. Python objects that are shared and mutated (gates, parameter tensors) live in
  a store and are named by references; exceptions are values of type \<open>error\<close>.
  A leading underscore of a Python name is dropped (\<^verbatim>\<open>_eager_execute\<close> is
  \<open>eager_execute\<close>); where that clashes with a public name it is written \<open>u_\<close>
  (\<^verbatim>\<open>_execute\<close> is \<open>u_execute\<close>, \<^verbatim>\<open>_final_state\<close> is \<open>u_final_state\<close>).
\<close>

type_synonym ref = nat

datatype error =
  RuntimeError | TypeError | ValueError | AttributeError | KeyError | IndexError
  | ResourceExhaustedError

datatype dtype = DTYPECPX | DTYPEINT | DTYPE

record tensor =
  shape :: "nat list"
  dtype :: dtype
  data :: "complex list"

text \<open>What a caller may pass as \<^verbatim>\<open>initial_state\<close>: a value of one of
  \<^verbatim>\<open>K.tensor_types\<close>, or any other object (one without a \<^verbatim>\<open>shape\<close>
  attribute, such as a Python list).\<close>

datatype py_value = PyTensor tensor | PyObject

section \<open>The numeric backend \<^verbatim>\<open>K\<close>\<close>

text \<open>
  The backend flag \<^verbatim>\<open>K.custom_gates\<close> and the value of \<^verbatim>\<open>K.stack\<close> on an
  empty list differ between backends (numpy raises, tensorflow returns an empty tensor of
  rank one), so both are fields of the backend. \<^verbatim>\<open>K.oom_error\<close> is
  \<open>ResourceExhaustedError\<close>.
\<close>

record backend =
  custom_gates :: bool
  stack_empty :: "error + tensor"

definition K_cast :: "tensor \<Rightarrow> tensor" where
  "K_cast x = x\<lparr>dtype := DTYPECPX\<rparr>"

definition K_conj :: "tensor \<Rightarrow> tensor" where
  "K_conj x = x\<lparr>data := map cnj (data x)\<rparr>"

definition K_outer :: "tensor \<Rightarrow> tensor \<Rightarrow> tensor" where
  \<comment> \<open>\<^verbatim>\<open>tensordot(x, y, axes=0)\<close>\<close>
  "K_outer x y =
     \<lparr>shape = shape x @ shape y, dtype = dtype x,
      data = concat (map (\<lambda>a. map (\<lambda>b. a * b) (data y)) (data x))\<rparr>"

definition K_copy :: "tensor \<Rightarrow> tensor" where
  \<comment> \<open>\<^verbatim>\<open>x + zeros_like(x)\<close>\<close>
  "K_copy x = x\<lparr>data := map (\<lambda>a. a + 0) (data x)\<rparr>"

text \<open>Modelled from the spec: \<^verbatim>\<open>K.reshape\<close>, \<^verbatim>\<open>K.stack\<close> and the custom operator
  behind \<^verbatim>\<open>K.initial_state\<close> are not in the source files. Reshape keeps the data
  and fails when the element count differs; stack along axis 0 puts a new leading axis
  over tensors of one shape; the initial state is the basis state \<open>|0...0>\<close>, as a vector
  or as a density matrix.\<close>

definition K_reshape :: "tensor \<Rightarrow> nat list \<Rightarrow> error + tensor" where
  "K_reshape x shp =
     (if prod_list shp = length (data x) then Inr (x\<lparr>shape := shp\<rparr>) else Inl ValueError)"

definition K_stack :: "backend \<Rightarrow> tensor list \<Rightarrow> error + tensor" where
  "K_stack K xs =
     (case xs of
        [] \<Rightarrow> stack_empty K
      | x # _ \<Rightarrow>
          if list_all (\<lambda>y. shape y = shape x) xs
          then Inr \<lparr>shape = length xs # shape x, dtype = dtype x,
                    data = concat (map data xs)\<rparr>
          else Inl ValueError)"

definition K_initial_state :: "nat \<Rightarrow> bool \<Rightarrow> tensor" where
  "K_initial_state n is_matrix =
     (let shp = (if is_matrix then [2 ^ n, 2 ^ n] else [2 ^ n])
      in \<lparr>shape = shp, dtype = DTYPECPX, data = 1 # replicate (prod_list shp - 1) 0\<rparr>)"

section \<open>Gates, callbacks and the object store\<close>

text \<open>
  Gate classes are not in the source files; a gate object is a record of the attributes
  the circuit code reads. \<open>gate_cls\<close> answers the \<^verbatim>\<open>isinstance\<close> tests
  (\<open>ParametrizedGate\<close>, \<open>CallbackGate\<close>; \<open>M\<close> is the measurement gate), \<open>callback\<close> is
  \<open>None\<close> when the object has no such attribute. \<open>call\<close> is \<^verbatim>\<open>gate(state)\<close> and
  \<open>call_nshots\<close> is \<^verbatim>\<open>gate(state, nshots)\<close> of a measurement gate; both may
  raise and may touch the world outside the circuit: the random generator of a channel and the
  histories of callback objects.
\<close>

record callback_obj =
  cb_apply :: "tensor \<Rightarrow> tensor"
  cb_results :: "tensor list"

record world =
  rng :: nat
  callbacks :: "ref \<Rightarrow> callback_obj"

record gate_result =
  gr_qubits :: "nat list"
  decimal_samples :: tensor

record circuit_result =
  cr_measurement_tuples :: "(string \<times> nat list) list"
  measurement_gate_result :: gate_result

datatype outcome = State tensor | Result circuit_result

datatype gate_class = Gate | ParametrizedGate | CallbackGate | M

record gate =
  gate_cls :: gate_class
  gate_nqubits :: "nat option"
  is_prepared :: bool
  qubits :: "nat list"
  trainable :: bool
  parameters :: ref
  callback :: "ref option"
  unitaries :: "ref list"
  additional_unitary :: "ref option"
  call :: "world \<Rightarrow> tensor \<Rightarrow> (error + tensor) \<times> world"
  call_nshots :: "world \<Rightarrow> tensor \<Rightarrow> int \<Rightarrow> (error + gate_result) \<times> world"

record store =
  gate_heap :: "ref \<Rightarrow> gate"
  tensor_heap :: "ref \<Rightarrow> tensor"
  next_ref :: ref

section \<open>Circuits\<close>

record shape_table =
  TENSOR :: "nat list"
  FLAT :: "nat list"
  TENSOR_FLAT :: "nat list"
  VECTOR :: "nat list option"

record fusion_group =
  gates :: "ref list"
  absorbed :: "ref list"

datatype compiled = CompiledExecute

record circuit =
  nqubits :: nat
  queue :: "ref list"
  parametrized_gates :: "ref list"
  trainable_gates :: "ref list"
  measurement_gate :: "ref option"
  measurement_tuples :: "(string \<times> nat list) list"
  repeated_execution :: bool
  density_matrix :: bool
  u_compiled_execute :: "compiled option"
  check_initial_state_shape :: bool
  shapes :: shape_table
  u_final_state :: "tensor option"
  fusion_groups :: "fusion_group list"

text \<open>Modelled from the spec: \<^verbatim>\<open>AbstractCircuit.__init__\<close> is not in the source
  files; it leaves the queue empty, no measurement gate, no final state. The rest is
  \<^verbatim>\<open>Circuit.__init__\<close> and \<^verbatim>\<open>DensityMatrixCircuit.__init__\<close>.\<close>

definition Circuit :: "nat \<Rightarrow> circuit" where
  "Circuit n =
     \<lparr>nqubits = n, queue = [], parametrized_gates = [], trainable_gates = [],
      measurement_gate = None, measurement_tuples = [], repeated_execution = False,
      density_matrix = False, u_compiled_execute = None,
      check_initial_state_shape = True,
      shapes = \<lparr>TENSOR = replicate n 2, FLAT = [2 ^ n], TENSOR_FLAT = [2 ^ n],
                VECTOR = None\<rparr>,
      u_final_state = None, fusion_groups = []\<rparr>"

definition DensityMatrixCircuit :: "nat \<Rightarrow> circuit" where
  "DensityMatrixCircuit n =
     (Circuit n)
       \<lparr>density_matrix := True,
        shapes := \<lparr>TENSOR = replicate (2 * n) 2, FLAT = [2 ^ n, 2 ^ n],
                   TENSOR_FLAT = [2 ^ n, 2 ^ n], VECTOR = Some [2 ^ n]\<rparr>\<rparr>"

text \<open>A circuit that came from one of the two constructors: the attributes no method of
  the source assigns after construction still have the constructor's values.\<close>

definition constructed :: "circuit \<Rightarrow> bool" where
  "constructed c =
     (check_initial_state_shape c \<and>
      shapes c = shapes (if density_matrix c then DensityMatrixCircuit (nqubits c)
                         else Circuit (nqubits c)))"

subsection \<open>Initial state\<close>

definition Circuit_cast_initial_state :: "py_value \<Rightarrow> error + tensor" where
  "Circuit_cast_initial_state state =
     (case state of PyTensor t \<Rightarrow> Inr (K_cast t) | PyObject \<Rightarrow> Inl TypeError)"

definition DensityMatrixCircuit_cast_initial_state ::
  "circuit \<Rightarrow> py_value \<Rightarrow> error + tensor" where
  "DensityMatrixCircuit_cast_initial_state c state =
     (case state of
        PyObject \<Rightarrow> Inl AttributeError
      | PyTensor t \<Rightarrow>
          (case VECTOR (shapes c) of
             None \<Rightarrow> Inl KeyError
           | Some v \<Rightarrow>
               Circuit_cast_initial_state
                 (PyTensor (if shape t = v then K_outer t (K_conj t) else t))))"

definition cast_initial_state :: "circuit \<Rightarrow> py_value \<Rightarrow> error + tensor" where
  \<comment> \<open>method dispatch on the class of \<^verbatim>\<open>self\<close>\<close>
  "cast_initial_state c state =
     (if density_matrix c then DensityMatrixCircuit_cast_initial_state c state
      else Circuit_cast_initial_state state)"

definition get_initial_state :: "circuit \<Rightarrow> py_value option \<Rightarrow> error + tensor" where
  "get_initial_state c state =
     (case state of
        None \<Rightarrow> Inr (K_initial_state (nqubits c) (density_matrix c))
      | Some v \<Rightarrow>
          (case cast_initial_state c v of
             Inl e \<Rightarrow> Inl e
           | Inr s \<Rightarrow>
               if check_initial_state_shape c \<and> shape s \<noteq> FLAT (shapes c)
               then Inl ValueError else Inr s))"

subsection \<open>Compilation and the final state\<close>

definition compile :: "backend \<Rightarrow> circuit \<Rightarrow> error + circuit" where
  "compile K c =
     (if u_compiled_execute c \<noteq> None then Inl RuntimeError
      else if queue c = [] then Inl RuntimeError
      else if custom_gates K then Inl RuntimeError
      else Inr (c\<lparr>u_compiled_execute := Some CompiledExecute\<rparr>))"

definition final_state :: "circuit \<Rightarrow> error + tensor" where
  "final_state c = (case u_final_state c of None \<Rightarrow> Inl RuntimeError | Some s \<Rightarrow> Inr s)"

section \<open>Execution\<close>

fun eager_execute :: "store \<Rightarrow> ref list \<Rightarrow> world \<Rightarrow> tensor \<Rightarrow> (error + tensor) \<times> world" where
  "eager_execute H [] w state = (Inr state, w)"
| "eager_execute H (g # gs) w state =
     (case call (gate_heap H g) w state of
        (Inl e, w') \<Rightarrow> (Inl e, w')
      | (Inr state', w') \<Rightarrow> eager_execute H gs w' state')"

text \<open>\<^verbatim>\<open>callback_results\<close> is a dictionary keyed by callback objects; it is an association
  list in insertion order. \<open>AList.update\<close> is \<^verbatim>\<open>d[k] = v\<close>.\<close>

type_synonym callback_results = "(ref \<times> tensor list) list"

fun execute_for_compile_loop ::
  "store \<Rightarrow> ref list \<Rightarrow> world \<Rightarrow> tensor \<Rightarrow> callback_results
   \<Rightarrow> (error + tensor \<times> callback_results) \<times> world" where
  "execute_for_compile_loop H [] w state cr = (Inr (state, cr), w)"
| "execute_for_compile_loop H (g # gs) w state cr =
     (if gate_cls (gate_heap H g) = CallbackGate then
        (case callback (gate_heap H g) of
           None \<Rightarrow> (Inl AttributeError, w)
         | Some cb \<Rightarrow>
             execute_for_compile_loop H gs w state
               (AList.map_entry cb (\<lambda>vs. vs @ [cb_apply (callbacks w cb) state]) cr))
      else
        (case call (gate_heap H g) w state of
           (Inl e, w') \<Rightarrow> (Inl e, w')
         | (Inr state', w') \<Rightarrow> execute_for_compile_loop H gs w' state' cr))"

definition execute_for_compile ::
  "store \<Rightarrow> circuit \<Rightarrow> world \<Rightarrow> tensor \<Rightarrow> (error + tensor \<times> callback_results) \<times> world" where
  "execute_for_compile H c w state =
     execute_for_compile_loop H (queue c) w state
       (fold (\<lambda>g cr. case callback (gate_heap H g) of
                       None \<Rightarrow> cr
                     | Some cb \<Rightarrow> AList.update cb [] cr)
          (queue c) [])"

definition extend_callbacks :: "callback_results \<Rightarrow> world \<Rightarrow> world" where
  \<comment> \<open>\<^verbatim>\<open>for callback, results in callback_results.items(): callback.extend(results)\<close>\<close>
  "extend_callbacks cr w =
     fold (\<lambda>(cb, results) w.
             w\<lparr>callbacks := (callbacks w)
                  (cb := (callbacks w cb)\<lparr>cb_results := cb_results (callbacks w cb) @ results\<rparr>)\<rparr>)
       cr w"

text \<open>Lines 151 to 156 of \<^verbatim>\<open>_execute\<close>: the eager loop, or the compiled handle, which
  runs \<^verbatim>\<open>_execute_for_compile\<close> of the circuit it was made from.\<close>

definition run_queue :: "store \<Rightarrow> circuit \<Rightarrow> world \<Rightarrow> tensor \<Rightarrow> (error + tensor) \<times> world" where
  "run_queue H c w state =
     (if u_compiled_execute c = None then eager_execute H (queue c) w state
      else
        (case execute_for_compile H c w state of
           (Inl e, w') \<Rightarrow> (Inl e, w')
         | (Inr (state', cr), w') \<Rightarrow> (Inr state', extend_callbacks cr w')))"

definition u_execute ::
  "backend \<Rightarrow> store \<Rightarrow> circuit \<Rightarrow> world \<Rightarrow> py_value option
   \<Rightarrow> (error + tensor) \<times> circuit \<times> world" where
  "u_execute K H self w initial_state =
     (let c = self\<lparr>u_final_state := None\<rparr> in
      case get_initial_state c initial_state of
        Inl e \<Rightarrow> (Inl e, c, w)
      | Inr state \<Rightarrow>
          (case (if \<not> custom_gates K then K_reshape state (TENSOR (shapes c))
                 else Inr state) of
             Inl e \<Rightarrow> (Inl e, c, w)
           | Inr state \<Rightarrow>
               (case run_queue H c w state of
                  (Inl e, w') \<Rightarrow> (Inl e, c, w')
                | (Inr state, w') \<Rightarrow>
                    (case (if \<not> custom_gates K
                           then K_reshape state (TENSOR_FLAT (shapes c))
                           else Inr state) of
                       Inl e \<Rightarrow> (Inl e, c, w')
                     | Inr state \<Rightarrow> (Inr state, c\<lparr>u_final_state := Some state\<rparr>, w')))))"

definition device_execute ::
  "backend \<Rightarrow> store \<Rightarrow> circuit \<Rightarrow> world \<Rightarrow> py_value option
   \<Rightarrow> (error + tensor) \<times> circuit \<times> world" where
  "device_execute K H c w initial_state =
     (case u_execute K H c w initial_state of
        (Inl e, c', w') \<Rightarrow>
          (Inl (if e = ResourceExhaustedError then RuntimeError else e), c', w')
      | (Inr state, c', w') \<Rightarrow> (Inr state, c', w'))"

text \<open>Modelled from the spec: \<^verbatim>\<open>GateResult.__getitem__\<close> is not in the source files;
  a result holds one sample per shot, and indexing gives that shot's sample.\<close>

definition getitem :: "gate_result \<Rightarrow> nat \<Rightarrow> error + tensor" where
  "getitem r i =
     (if i < length (data (decimal_samples r))
      then Inr \<lparr>shape = [], dtype = dtype (decimal_samples r),
                data = [data (decimal_samples r) ! i]\<rparr>
      else Inl IndexError)"

fun repeated_execute_loop ::
  "backend \<Rightarrow> store \<Rightarrow> py_value option \<Rightarrow> nat \<Rightarrow> circuit \<Rightarrow> world \<Rightarrow> tensor list
   \<Rightarrow> (error + tensor list) \<times> circuit \<times> world" where
  "repeated_execute_loop K H initial_state 0 c w results = (Inr results, c, w)"
| "repeated_execute_loop K H initial_state (Suc k) c w results =
     (case device_execute K H c w initial_state of
        (Inl e, c', w') \<Rightarrow> (Inl e, c', w')
      | (Inr state, c', w') \<Rightarrow>
          (case measurement_gate c' of
             Some m \<Rightarrow>
               (case call_nshots (gate_heap H m) w' state 1 of
                  (Inl e, w'') \<Rightarrow> (Inl e, c', w'')
                | (Inr r, w'') \<Rightarrow>
                    (case getitem r 0 of
                       Inl e \<Rightarrow> (Inl e, c', w'')
                     | Inr x \<Rightarrow>
                         repeated_execute_loop K H initial_state k c' w'' (results @ [x])))
           | None \<Rightarrow>
               repeated_execute_loop K H initial_state k c' w' (results @ [K_copy state])))"

definition repeated_execute ::
  "backend \<Rightarrow> store \<Rightarrow> circuit \<Rightarrow> world \<Rightarrow> int \<Rightarrow> py_value option
   \<Rightarrow> (error + outcome) \<times> circuit \<times> world" where
  "repeated_execute K H c w nreps initial_state =
     (case repeated_execute_loop K H initial_state (nat nreps) c w [] of
        (Inl e, c', w') \<Rightarrow> (Inl e, c', w')
      | (Inr results, c', w') \<Rightarrow>
          (case K_stack K results of
             Inl e \<Rightarrow> (Inl e, c', w')
           | Inr stacked \<Rightarrow>
               (case measurement_gate c' of
                  None \<Rightarrow> (Inr (State stacked), c', w')
                | Some m \<Rightarrow>
                    (Inr (Result
                       \<lparr>cr_measurement_tuples = measurement_tuples c',
                        measurement_gate_result =
                          \<lparr>gr_qubits = qubits (gate_heap H m),
                           decimal_samples = stacked\<rparr>\<rparr>), c', w'))))"

definition execute ::
  "backend \<Rightarrow> store \<Rightarrow> circuit \<Rightarrow> world \<Rightarrow> py_value option \<Rightarrow> int option
   \<Rightarrow> (error + outcome) \<times> circuit \<times> world" where
  "execute K H c w initial_state nshots =
     (case (nshots, repeated_execution c) of
        (Some n, True) \<Rightarrow>
          repeated_execute K H (c\<lparr>u_final_state := None\<rparr>) w n initial_state
      | _ \<Rightarrow>
          (case device_execute K H c w initial_state of
             (Inl e, c', w') \<Rightarrow> (Inl e, c', w')
           | (Inr state, c', w') \<Rightarrow>
               (case (measurement_gate c', nshots) of
                  (Some m, Some n) \<Rightarrow>
                    (case call_nshots (gate_heap H m) w' state n of
                       (Inl e, w'') \<Rightarrow> (Inl e, c', w'')
                     | (Inr mgate_result, w'') \<Rightarrow>
                         (Inr (Result
                            \<lparr>cr_measurement_tuples = measurement_tuples c',
                             measurement_gate_result = mgate_result\<rparr>), c', w''))
                | _ \<Rightarrow> (Inr (State state), c', w'))))"

subsection \<open>Repeated execution, in the words of the specification\<close>

text \<open>
  The specification describes repeated execution as shots that are independent of one
  another: each shot runs the whole queue of the circuit as it was when
  \<^verbatim>\<open>execute\<close> was called, from the initial state the caller gave, and shares only
  the outside world (the random generator) with the shots before it. \<open>single_shot\<close> is
  one such shot: it gives the shot's final state and the entry the shot contributes to
  the result (a copy of the state, or one measurement sample). \<open>independent_shots\<close>
  runs a number of them. They are compared with \<open>repeated_execute_loop\<close> below.
\<close>

definition single_shot ::
  "backend \<Rightarrow> store \<Rightarrow> circuit \<Rightarrow> py_value option \<Rightarrow> world
   \<Rightarrow> (error + tensor \<times> tensor) \<times> world" where
  "single_shot K H c initial_state w =
     (case device_execute K H c w initial_state of
        (Inl e, c', w') \<Rightarrow> (Inl e, w')
      | (Inr state, c', w') \<Rightarrow>
          (case measurement_gate c of
             None \<Rightarrow> (Inr (state, K_copy state), w')
           | Some m \<Rightarrow>
               (case call_nshots (gate_heap H m) w' state 1 of
                  (Inl e, w'') \<Rightarrow> (Inl e, w'')
                | (Inr r, w'') \<Rightarrow>
                    (case getitem r 0 of
                       Inl e \<Rightarrow> (Inl e, w'')
                     | Inr x \<Rightarrow> (Inr (state, x), w'')))))"

fun independent_shots ::
  "backend \<Rightarrow> store \<Rightarrow> circuit \<Rightarrow> py_value option \<Rightarrow> nat \<Rightarrow> world
   \<Rightarrow> (error + (tensor \<times> tensor) list) \<times> world" where
  "independent_shots K H c initial_state 0 w = (Inr [], w)"
| "independent_shots K H c initial_state (Suc k) w =
     (case single_shot K H c initial_state w of
        (Inl e, w') \<Rightarrow> (Inl e, w')
      | (Inr p, w') \<Rightarrow>
          (case independent_shots K H c initial_state k w' of
             (Inl e, w'') \<Rightarrow> (Inl e, w'')
           | (Inr ps, w'') \<Rightarrow> (Inr (p # ps), w'')))"

text \<open>The pass of \<^verbatim>\<open>_execute\<close> that an \<^verbatim>\<open>execute\<close> call starting in world \<open>w\<close> makes
  after \<open>j\<close> shots have succeeded, and the whole shot (pass and sampling) made there:
  \<open>None\<close> when one of the \<open>j\<close> shots before it fails, so that it is never reached.\<close>

definition nth_pass ::
  "backend \<Rightarrow> store \<Rightarrow> circuit \<Rightarrow> py_value option \<Rightarrow> world \<Rightarrow> nat
   \<Rightarrow> (error + tensor) option" where
  "nth_pass K H c initial_state w j =
     (case independent_shots K H c initial_state j w of
        (Inl e, wj) \<Rightarrow> None
      | (Inr ps, wj) \<Rightarrow> Some (fst (u_execute K H c wj initial_state)))"

definition nth_shot ::
  "backend \<Rightarrow> store \<Rightarrow> circuit \<Rightarrow> py_value option \<Rightarrow> world \<Rightarrow> nat
   \<Rightarrow> (error + tensor \<times> tensor) option" where
  "nth_shot K H c initial_state w j =
     (case independent_shots K H c initial_state j w of
        (Inl e, wj) \<Rightarrow> None
      | (Inr ps, wj) \<Rightarrow> Some (fst (single_shot K H c initial_state wj)))"

text \<open>The number of passes of \<^verbatim>\<open>_execute\<close> an \<^verbatim>\<open>execute\<close> call makes when none of
  them fails: one per shot in repeated execution, one otherwise.\<close>

definition passes :: "circuit \<Rightarrow> int option \<Rightarrow> nat" where
  "passes c nshots =
     (case (nshots, repeated_execution c) of (Some n, True) \<Rightarrow> nat n | _ \<Rightarrow> 1)"

text \<open>The contract of gate application (section 6 of the specification): a gate returns a
  state of the shape it was given.\<close>

definition keeps_shape :: "gate \<Rightarrow> bool" where
  "keeps_shape g =
     (\<forall>w s s' w'. call g w s = (Inr s', w') \<longrightarrow> shape s' = shape s)"

section \<open>Queue management\<close>

text \<open>Modelled from the spec: the gate classes are not in the source files. A gate has
  the qubit count it was prepared for and an \<open>is_prepared\<close> flag; \<^verbatim>\<open>prepare()\<close> sets the
  flag, and assigning \<^verbatim>\<open>gate.nqubits\<close> stores the count.\<close>

definition prepare :: "gate \<Rightarrow> gate" where
  "prepare g = g\<lparr>is_prepared := True\<rparr>"

text \<open>The methods below mutate gate objects and the circuit. On an exception the mutations
  made so far stay, so each returns the error, if any, beside the circuit and the store.\<close>

definition set_nqubits :: "circuit \<Rightarrow> ref \<Rightarrow> store \<Rightarrow> error + store" where
  "set_nqubits self g H =
     (if is_prepared (gate_heap H g) \<and> gate_nqubits (gate_heap H g) \<noteq> Some (nqubits self)
      then Inl RuntimeError
      else Inr (H\<lparr>gate_heap := (gate_heap H)
                  (g := prepare ((gate_heap H g)\<lparr>gate_nqubits := Some (nqubits self)\<rparr>))\<rparr>))"

fun add_unitaries ::
  "circuit \<Rightarrow> ref list \<Rightarrow> store \<Rightarrow> error option \<times> circuit \<times> store" where
  "add_unitaries self [] H = (None, self, H)"
| "add_unitaries self (unitary # us) H =
     (case set_nqubits self unitary H of
        Inl e \<Rightarrow> (Some e, self, H)
      | Inr H' \<Rightarrow> add_unitaries (self\<lparr>queue := queue self @ [unitary]\<rparr>) us H')"

definition add_layer ::
  "circuit \<Rightarrow> ref \<Rightarrow> store \<Rightarrow> error option \<times> circuit \<times> store" where
  "add_layer self g H =
     (let H1 = H\<lparr>gate_heap := (gate_heap H)(g := prepare (gate_heap H g))\<rparr> in
      case add_unitaries self (unitaries (gate_heap H1 g)) H1 of
        (Some e, c', H') \<Rightarrow> (Some e, c', H')
      | (None, c', H') \<Rightarrow>
          (case additional_unitary (gate_heap H' g) of
             None \<Rightarrow> (None, c', H')
           | Some a \<Rightarrow>
               (case set_nqubits c' a H' of
                  Inl e \<Rightarrow> (Some e, c', H')
                | Inr H'' \<Rightarrow> (None, c'\<lparr>queue := queue c' @ [a]\<rparr>, H''))))"

text \<open>Modelled from the spec: \<^verbatim>\<open>AbstractCircuit.add\<close> is not in the source files. Section
  4.1: it appends a gate to the queue after preparing it for the circuit's qubit count,
  and fails if the gate was already prepared for another count. Only this queue path is
  modelled; the registration of a measurement gate is left out.\<close>

definition add :: "circuit \<Rightarrow> ref \<Rightarrow> store \<Rightarrow> error option \<times> circuit \<times> store" where
  "add self g H =
     (case set_nqubits self g H of
        Inl e \<Rightarrow> (Some e, self, H)
      | Inr H' \<Rightarrow> (None, self\<lparr>queue := queue self @ [g]\<rparr>, H'))"

text \<open>The invariant of the queue: every queued gate object is prepared, for the qubit count
  of the circuit.\<close>

definition queue_inv :: "store \<Rightarrow> circuit \<Rightarrow> bool" where
  "queue_inv H c =
     list_all (\<lambda>g. is_prepared (gate_heap H g) \<and>
                    gate_nqubits (gate_heap H g) = Some (nqubits c)) (queue c)"

section \<open>Copying and fusing\<close>

text \<open>\<^verbatim>\<open>copy.copy\<close> makes a new object with the attribute values of the old one: the new
  gate object refers to the same parameter tensor. \<^verbatim>\<open>self.__class__(**self.init_kwargs)\<close>
  is the constructor of the circuit's class at its qubit count.\<close>

definition copy_gate :: "ref \<Rightarrow> store \<Rightarrow> ref \<times> store" where
  "copy_gate g H =
     (next_ref H,
      H\<lparr>gate_heap := (gate_heap H)(next_ref H := gate_heap H g), next_ref := Suc (next_ref H)\<rparr>)"

fun fuse_copy_loop :: "ref list \<Rightarrow> circuit \<Rightarrow> store \<Rightarrow> circuit \<times> store" where
  "fuse_copy_loop [] new_circuit H = (new_circuit, H)"
| "fuse_copy_loop (g # gs) new_circuit H =
     (if gate_cls (gate_heap H g) = ParametrizedGate then
        if trainable (gate_heap H g) then
          (case copy_gate g H of
             (new_gate, H') \<Rightarrow>
               fuse_copy_loop gs
                 (new_circuit
                    \<lparr>queue := queue new_circuit @ [new_gate],
                     parametrized_gates := parametrized_gates new_circuit @ [new_gate],
                     trainable_gates := trainable_gates new_circuit @ [new_gate]\<rparr>) H')
        else
          fuse_copy_loop gs
            (new_circuit
               \<lparr>queue := queue new_circuit @ [g],
                parametrized_gates := parametrized_gates new_circuit @ [g]\<rparr>) H
      else fuse_copy_loop gs (new_circuit\<lparr>queue := queue new_circuit @ [g]\<rparr>) H)"

definition fuse_copy :: "circuit \<Rightarrow> store \<Rightarrow> circuit \<times> store" where
  "fuse_copy self H =
     (case fuse_copy_loop (queue self)
             (if density_matrix self then DensityMatrixCircuit (nqubits self)
              else Circuit (nqubits self)) H of
        (new_circuit, H1) \<Rightarrow>
          (case measurement_gate self of
             None \<Rightarrow>
               (new_circuit\<lparr>measurement_gate := None,
                  measurement_tuples := measurement_tuples self\<rparr>, H1)
           | Some m \<Rightarrow>
               (case copy_gate m H1 of
                  (m', H2) \<Rightarrow>
                    (new_circuit\<lparr>measurement_gate := Some m',
                       measurement_tuples := measurement_tuples self\<rparr>, H2))))"

text \<open>Modelled from the spec: \<^verbatim>\<open>qibo/core/fusion.py\<close> (\<^verbatim>\<open>FusionGroup.from_queue\<close>) is not
  in the source files. Section 4.2: the queue is scanned from left to right; the current
  group is extended with the next gate while the union of the qubits touched stays within
  two qubits, and is closed, a new one started, once the next gate would exceed two
  qubits. Callback and measurement gates are never absorbed: they close the current group
  and pass through as they are (\<^verbatim>\<open>fuse\<close> rebuilds the queue from the groups alone, so
  each is carried by a group of its own that fuses nothing). The action of a group is the
  composition of the actions of its gates in application order, carried by one synthetic
  unitary gate, a new gate object; the residual "additional unitary", which the
  specification leaves open, is not modelled.\<close>

definition boundary :: "gate \<Rightarrow> bool" where
  "boundary g = (gate_cls g = CallbackGate \<or> gate_cls g = M)"

fun compose_calls ::
  "(world \<Rightarrow> tensor \<Rightarrow> (error + tensor) \<times> world) list
   \<Rightarrow> world \<Rightarrow> tensor \<Rightarrow> (error + tensor) \<times> world" where
  "compose_calls [] w state = (Inr state, w)"
| "compose_calls (f # fs) w state =
     (case f w state of
        (Inl e, w') \<Rightarrow> (Inl e, w')
      | (Inr state', w') \<Rightarrow> compose_calls fs w' state')"

fun group_queue :: "store \<Rightarrow> ref list \<Rightarrow> ref list \<Rightarrow> nat list \<Rightarrow> ref list list" where
  "group_queue H [] current qs = (if current = [] then [] else [current])"
| "group_queue H (g # gs) current qs =
     (if boundary (gate_heap H g) then
        (if current = [] then [] else [current]) @ [g] # group_queue H gs [] []
      else if current = [] \<or> length (remdups (qs @ qubits (gate_heap H g))) \<le> 2 then
        group_queue H gs (current @ [g]) (remdups (qs @ qubits (gate_heap H g)))
      else current # group_queue H gs [g] (remdups (qubits (gate_heap H g))))"

definition fused_gate :: "store \<Rightarrow> ref list \<Rightarrow> gate" where
  "fused_gate H grp =
     \<lparr>gate_cls = Gate,
      gate_nqubits = (case grp of [] \<Rightarrow> None | g # _ \<Rightarrow> gate_nqubits (gate_heap H g)),
      is_prepared = True,
      qubits = remdups (concat (map (\<lambda>g. qubits (gate_heap H g)) grp)),
      trainable = False, parameters = 0, callback = None, unitaries = [],
      additional_unitary = None,
      call = compose_calls (map (\<lambda>g. call (gate_heap H g)) grp),
      call_nshots = (\<lambda>w s n. (Inl TypeError, w))\<rparr>"

fun from_groups :: "ref list list \<Rightarrow> store \<Rightarrow> fusion_group list \<times> store" where
  "from_groups [] H = ([], H)"
| "from_groups (grp # rest) H =
     (if list_all (\<lambda>g. boundary (gate_heap H g)) grp then
        (case from_groups rest H of
           (groups, H') \<Rightarrow> (\<lparr>gates = grp, absorbed = grp\<rparr> # groups, H'))
      else
        (case from_groups rest
                (H\<lparr>gate_heap := (gate_heap H)(next_ref H := fused_gate H grp),
                   next_ref := Suc (next_ref H)\<rparr>) of
           (groups, H') \<Rightarrow> (\<lparr>gates = [next_ref H], absorbed = grp\<rparr> # groups, H')))"

definition FusionGroup_from_queue :: "ref list \<Rightarrow> store \<Rightarrow> fusion_group list \<times> store" where
  "FusionGroup_from_queue q H = from_groups (group_queue H q [] []) H"

definition fuse :: "circuit \<Rightarrow> store \<Rightarrow> circuit \<times> store" where
  "fuse self H =
     (case fuse_copy self H of
        (new_circuit, H1) \<Rightarrow>
          (case FusionGroup_from_queue (queue new_circuit) H1 of
             (groups, H2) \<Rightarrow>
               (new_circuit\<lparr>fusion_groups := groups, queue := concat (map gates groups)\<rparr>,
                H2)))"

text \<open>The objects a circuit refers to exist in the store, and a unitary gate is neither a
  callback nor a measurement gate and has no callback attribute.\<close>

definition allocated :: "store \<Rightarrow> circuit \<Rightarrow> bool" where
  "allocated H c =
     (list_all (\<lambda>g. g < next_ref H) (queue c) \<and>
      (case measurement_gate c of None \<Rightarrow> True | Some m \<Rightarrow> m < next_ref H))"

definition unitary_gate :: "gate \<Rightarrow> bool" where
  "unitary_gate g = (gate_cls g \<noteq> CallbackGate \<and> gate_cls g \<noteq> M \<and> callback g = None)"

text \<open>The parameters a gate sees are the contents of the tensor object its attribute
  refers to. A parameter tensor is changed in place by writing into the object (as
  \<^verbatim>\<open>assign\<close> on a variable does); assigning \<^verbatim>\<open>gate.parameters\<close> rebinds the attribute of
  that one gate object to another tensor object.\<close>

definition gate_parameters :: "store \<Rightarrow> ref \<Rightarrow> tensor" where
  "gate_parameters H g = tensor_heap H (parameters (gate_heap H g))"

definition write_tensor :: "ref \<Rightarrow> tensor \<Rightarrow> store \<Rightarrow> store" where
  "write_tensor p v H = H\<lparr>tensor_heap := (tensor_heap H)(p := v)\<rparr>"

definition rebind_parameters :: "ref \<Rightarrow> ref \<Rightarrow> store \<Rightarrow> store" where
  "rebind_parameters g p H =
     H\<lparr>gate_heap := (gate_heap H)(g := (gate_heap H g)\<lparr>parameters := p\<rparr>)\<rparr>"

section \<open>Example objects\<close>

text \<open>A one-qubit Pauli X (it swaps the two amplitudes), a gate whose application
  exhausts the device memory, a bit-flip channel that applies X on every other draw of
  the random generator, a channel that applies X on one draw and exhausts the memory on the
  next, a measurement gate that samples the more likely outcome, one whose sampling
  exhausts the memory, a variational layer over two of the gates, and a trainable rotation
  whose parameter is the tensor object 7.\<close>

definition plain_gate :: gate where
  "plain_gate =
     \<lparr>gate_cls = Gate, gate_nqubits = None, is_prepared = False, qubits = [0],
      trainable = False, parameters = 0, callback = None, unitaries = [],
      additional_unitary = None,
      call = (\<lambda>w s. (Inr s, w)),
      call_nshots = (\<lambda>w s n. (Inl TypeError, w))\<rparr>"

definition X_gate :: gate where
  "X_gate = plain_gate\<lparr>call := (\<lambda>w s. (Inr (s\<lparr>data := rev (data s)\<rparr>), w))\<rparr>"

definition oom_gate :: gate where
  "oom_gate = plain_gate\<lparr>call := (\<lambda>w s. (Inl ResourceExhaustedError, w))\<rparr>"

definition flip_channel :: gate where
  "flip_channel =
     plain_gate
       \<lparr>call := (\<lambda>w s. (Inr (if even (rng w) then s\<lparr>data := rev (data s)\<rparr> else s),
                         w\<lparr>rng := Suc (rng w)\<rparr>))\<rparr>"

definition flaky_channel :: gate where
  "flaky_channel =
     plain_gate
       \<lparr>call := (\<lambda>w s. (if even (rng w) then Inr (s\<lparr>data := rev (data s)\<rparr>)
                          else Inl ResourceExhaustedError,
                         w\<lparr>rng := Suc (rng w)\<rparr>))\<rparr>"

definition M_gate :: gate where
  "M_gate =
     plain_gate
       \<lparr>gate_cls := M,
        call_nshots := (\<lambda>w s n.
          (Inr \<lparr>gr_qubits = [0],
                decimal_samples =
                  \<lparr>shape = [nat n], dtype = DTYPEINT,
                   data = replicate (nat n) (if hd (data s) = 0 then 1 else 0)\<rparr>\<rparr>, w))\<rparr>"

definition oom_M_gate :: gate where
  "oom_M_gate = M_gate\<lparr>call_nshots := (\<lambda>w s n. (Inl ResourceExhaustedError, w))\<rparr>"

definition layer_gate :: gate where
  "layer_gate = plain_gate\<lparr>unitaries := [0, 2], additional_unitary := Some 1\<rparr>"

definition RX_gate :: gate where
  "RX_gate = plain_gate\<lparr>gate_cls := ParametrizedGate, trainable := True, parameters := 7\<rparr>"

definition example_store :: store where
  "example_store =
     \<lparr>gate_heap = (\<lambda>r. if r = 0 then X_gate else if r = 1 then oom_gate
                       else if r = 2 then flip_channel else if r = 3 then M_gate
                       else if r = 4 then RX_gate else if r = 5 then flaky_channel
                       else if r = 6 then oom_M_gate else if r = 7 then layer_gate
                       else plain_gate),
      tensor_heap = (\<lambda>r. \<lparr>shape = [1], dtype = DTYPE, data = [0]\<rparr>),
      next_ref = 8\<rparr>"

definition example_world :: world where
  "example_world = \<lparr>rng = 0, callbacks = (\<lambda>r. \<lparr>cb_apply = (\<lambda>s. s), cb_results = []\<rparr>)\<rparr>"

definition numpy_like :: backend where
  "numpy_like = \<lparr>custom_gates = False, stack_empty = Inl ValueError\<rparr>"

definition tensorflow_like :: backend where
  "tensorflow_like =
     \<lparr>custom_gates = False, stack_empty = Inr \<lparr>shape = [0], dtype = DTYPE, data = []\<rparr>\<rparr>"

definition X_circuit :: circuit where
  "X_circuit = (Circuit 1)\<lparr>queue := [0]\<rparr>"

definition noisy_circuit :: circuit where
  "noisy_circuit = (Circuit 1)\<lparr>queue := [2], repeated_execution := True\<rparr>"

definition flaky_circuit :: circuit where
  "flaky_circuit = (Circuit 1)\<lparr>queue := [5], repeated_execution := True\<rparr>"

definition sampling_fails_circuit :: circuit where
  "sampling_fails_circuit = X_circuit\<lparr>measurement_gate := Some 6\<rparr>"

definition rx_circuit :: circuit where
  "rx_circuit =
     (Circuit 1)\<lparr>queue := [0, 4], parametrized_gates := [4], trainable_gates := [4]\<rparr>"

definition ket0 :: tensor where
  "ket0 = \<lparr>shape = [2], dtype = DTYPECPX, data = [1, 0]\<rparr>"

definition ket1 :: tensor where
  "ket1 = \<lparr>shape = [2], dtype = DTYPECPX, data = [0, 1]\<rparr>"

definition failing_circuit :: circuit where
  "failing_circuit = X_circuit\<lparr>queue := [0, 1], u_final_state := Some ket1\<rparr>"

definition measured_circuit :: circuit where
  "measured_circuit =
     noisy_circuit\<lparr>measurement_gate := Some 3, measurement_tuples := [(''register0'', [0])]\<rparr>"

definition custom_backend :: backend where
  "custom_backend = \<lparr>custom_gates = True, stack_empty = Inl ValueError\<rparr>"

definition prepared_store :: store where
  "prepared_store = snd (snd (add (Circuit 3) 0 example_store))"

section \<open>Auxiliary predicates\<close>

text \<open>What is known of one shot of \<open>independent_shots\<close>.\<close>

definition shot_ok :: "backend \<Rightarrow> store \<Rightarrow> circuit \<Rightarrow> py_value option \<Rightarrow> tensor \<times> tensor \<Rightarrow> bool" where
  "shot_ok K H c i p =
     ((\<exists>w0. fst (u_execute K H c w0 i) = Inr (fst p)) \<and>
      shape (fst p) = FLAT (shapes c) \<and>
      (measurement_gate c = None \<longrightarrow> snd p = fst p) \<and>
      (measurement_gate c \<noteq> None \<longrightarrow> shape (snd p) = []))"

section \<open>Properties of execution\<close>

lemma u_execute_circuit:
  "u_execute K H c w i = (r, c', w') \<Longrightarrow>
   c' = c\<lparr>u_final_state := (case r of Inl e \<Rightarrow> None | Inr s \<Rightarrow> Some s)\<rparr>"
  by (auto simp: u_execute_def Let_def split: sum.splits prod.splits if_splits)

lemma u_execute_reset:
  "u_execute K H (c\<lparr>u_final_state := x\<rparr>) w i = u_execute K H c w i"
  by (simp add: u_execute_def get_initial_state_def cast_initial_state_def DensityMatrixCircuit_cast_initial_state_def run_queue_def execute_for_compile_def)

lemma device_execute_circuit:
  "device_execute K H c w i = (r, c', w') \<Longrightarrow>
   c' = c\<lparr>u_final_state := (case r of Inl e \<Rightarrow> None | Inr s \<Rightarrow> Some s)\<rparr>"
  by (auto simp: device_execute_def split: sum.splits prod.splits dest!: u_execute_circuit)

lemma device_execute_reset:
  "device_execute K H (c\<lparr>u_final_state := x\<rparr>) w i = device_execute K H c w i"
  by (simp add: device_execute_def u_execute_reset)

lemma single_shot_reset:
  "single_shot K H (c\<lparr>u_final_state := x\<rparr>) i w = single_shot K H c i w"
  by (simp add: single_shot_def device_execute_reset split: prod.split sum.split)

lemma independent_shots_reset:
  "independent_shots K H (c\<lparr>u_final_state := x\<rparr>) i k w = independent_shots K H c i k w"
  by (induction k arbitrary: w) (simp_all add: single_shot_reset split: prod.split sum.split)

text \<open>one iteration of the loop, in terms of single_shot\<close>
lemma loop_Suc:
  "repeated_execute_loop K H i (Suc k) c w rs =
     (case single_shot K H c i w of
        (Inl e, w') \<Rightarrow> (Inl e, fst (snd (device_execute K H c w i)), w')
      | (Inr (s, x), w') \<Rightarrow>
          repeated_execute_loop K H i k (c\<lparr>u_final_state := Some s\<rparr>) w' (rs @ [x]))"
  apply (simp add: single_shot_def split: prod.split sum.split option.split)
  apply (auto dest!: device_execute_circuit)
  done

lemma loop_result:
  "fst (repeated_execute_loop K H i k c w rs) =
     (case fst (independent_shots K H c i k w) of
        Inl e \<Rightarrow> Inl e | Inr ps \<Rightarrow> Inr (rs @ map snd ps))"
proof (induction k arbitrary: c w rs)
  case 0
  show ?case by simp
next
  case (Suc k)
  show ?case
    unfolding loop_Suc
    by (simp add: Suc.IH independent_shots_reset split: prod.split sum.split)
qed

lemma loop_world:
  "snd (snd (repeated_execute_loop K H i k c w rs)) = snd (independent_shots K H c i k w)"
proof (induction k arbitrary: c w rs)
  case 0
  show ?case by simp
next
  case (Suc k)
  show ?case
    unfolding loop_Suc
    by (simp add: Suc.IH independent_shots_reset split: prod.split sum.split)
qed

lemma loop_circuit:
  "fst (independent_shots K H c i k w) = Inr ps \<Longrightarrow>
   fst (snd (repeated_execute_loop K H i k c w rs)) =
     c\<lparr>u_final_state := (if ps = [] then u_final_state c else Some (fst (last ps)))\<rparr>"
proof (induction k arbitrary: c w rs ps)
  case 0
  then show ?case by simp
next
  case (Suc k)
  show ?case
    using Suc.prems
    unfolding loop_Suc
    by (auto simp add: Suc.IH independent_shots_reset split: prod.splits sum.splits)
qed

lemma independent_shots_length':
  "independent_shots K H c i k w = (Inr ps, w') \<Longrightarrow> length ps = k"
  by (induction k arbitrary: w ps w') (auto split: prod.splits sum.splits)

lemma independent_shots_length:
  "fst (independent_shots K H c i k w) = Inr ps \<Longrightarrow> length ps = k"
  using independent_shots_length' by (metis prod.collapse)

lemma cast_initial_state_reset:
  "cast_initial_state (c\<lparr>u_final_state := x\<rparr>) v = cast_initial_state c v"
  by (cases v) (simp_all add: cast_initial_state_def DensityMatrixCircuit_cast_initial_state_def)

lemma get_initial_state_reset:
  "get_initial_state (c\<lparr>u_final_state := x\<rparr>) i = get_initial_state c i"
  by (cases i) (simp_all add: get_initial_state_def cast_initial_state_reset split: sum.split)

lemma u_execute_cong:
  assumes "get_initial_state c i1 = get_initial_state c i2"
  shows "u_execute K H c w i1 = u_execute K H c w i2"
  using assms by (simp add: u_execute_def get_initial_state_reset)

lemma device_execute_cong:
  assumes "get_initial_state c i1 = get_initial_state c i2"
  shows "device_execute K H c w i1 = device_execute K H c w i2"
  unfolding device_execute_def u_execute_cong [OF assms] ..

lemma single_shot_cong:
  assumes "get_initial_state c i1 = get_initial_state c i2"
  shows "single_shot K H c i1 w = single_shot K H c i2 w"
  unfolding single_shot_def device_execute_cong [OF assms] ..

lemma loop_cong:
  "get_initial_state c i1 = get_initial_state c i2 \<Longrightarrow>
   repeated_execute_loop K H i1 k c w rs = repeated_execute_loop K H i2 k c w rs"
proof (induction k arbitrary: c w rs)
  case 0
  show ?case by simp
next
  case (Suc k)
  have "\<And>s. get_initial_state (c\<lparr>u_final_state := Some s\<rparr>) i1 =
            get_initial_state (c\<lparr>u_final_state := Some s\<rparr>) i2"
    using Suc.prems by (simp add: get_initial_state_reset)
  then have "\<And>s w' rs'. repeated_execute_loop K H i1 k (c\<lparr>u_final_state := Some s\<rparr>) w' rs' =
            repeated_execute_loop K H i2 k (c\<lparr>u_final_state := Some s\<rparr>) w' rs'"
    by (rule Suc.IH)
  then show ?case
    unfolding loop_Suc single_shot_cong [OF Suc.prems] device_execute_cong [OF Suc.prems]
    by (simp split: prod.split sum.split)
qed

lemma execute_cong:
  assumes "get_initial_state c i1 = get_initial_state c i2"
  shows "execute K H c w i1 n = execute K H c w i2 n"
proof -
  have "get_initial_state (c\<lparr>u_final_state := None\<rparr>) i1 =
        get_initial_state (c\<lparr>u_final_state := None\<rparr>) i2"
    using assms by (simp add: get_initial_state_reset)
  then have "\<And>m. repeated_execute K H (c\<lparr>u_final_state := None\<rparr>) w m i1 =
                 repeated_execute K H (c\<lparr>u_final_state := None\<rparr>) w m i2"
    unfolding repeated_execute_def by (simp only: loop_cong [of _ i1 i2])
  then show ?thesis
    by (simp add: execute_def device_execute_cong [OF assms] split: option.split bool.split)
qed

lemma promoted_initial_state:
  assumes "constructed c" and "density_matrix c" and "shape v = [2 ^ nqubits c]"
  shows "get_initial_state c (Some (PyTensor v)) =
         get_initial_state c (Some (PyTensor (K_outer v (K_conj v))))"
  using assms
  by (simp add: get_initial_state_def cast_initial_state_def constructed_def
      DensityMatrixCircuit_cast_initial_state_def DensityMatrixCircuit_def Circuit_def
      K_outer_def K_conj_def)

text \<open>
  Claim C4. A density-matrix circuit executed on a pure state vector \<open>v\<close> of flat shape
  \<open>(2^n,)\<close> gives the same result, final state and world as the same circuit executed on
  the density matrix \<open>outer(v, conj(v))\<close>.
\<close>

theorem promotion_correctness:
  assumes "constructed c" and "density_matrix c" and "shape v = [2 ^ nqubits c]"
  shows "execute K H c w (Some (PyTensor v)) nshots =
         execute K H c w (Some (PyTensor (K_outer v (K_conj v)))) nshots"
  by (rule execute_cong) (rule promoted_initial_state [OF assms])

lemma eager_execute_shape:
  "list_all (\<lambda>g. keeps_shape (gate_heap H g)) q \<Longrightarrow>
   eager_execute H q w s = (Inr s', w') \<Longrightarrow> shape s' = shape s"
proof (induction q arbitrary: w s)
  case Nil
  then show ?case by simp
next
  case (Cons g gs)
  from Cons.prems(2) obtain s1 w1 where
    step: "call (gate_heap H g) w s = (Inr s1, w1)" and
    rest: "eager_execute H gs w1 s1 = (Inr s', w')"
    by (auto split: prod.splits sum.splits)
  from Cons.prems(1) have "keeps_shape (gate_heap H g)" by simp
  with step have "shape s1 = shape s" unfolding keeps_shape_def by blast
  moreover from Cons.prems(1) have "list_all (\<lambda>g. keeps_shape (gate_heap H g)) gs" by simp
  from Cons.IH [OF this rest] have "shape s' = shape s1" .
  ultimately show ?case by simp
qed

lemma execute_for_compile_loop_shape:
  "list_all (\<lambda>g. keeps_shape (gate_heap H g)) q \<Longrightarrow>
   execute_for_compile_loop H q w s cr = (Inr (s', cr'), w') \<Longrightarrow> shape s' = shape s"
proof (induction q arbitrary: w s cr)
  case Nil
  then show ?case by simp
next
  case (Cons g gs)
  from Cons.prems(1) have ks: "keeps_shape (gate_heap H g)"
    and rest: "list_all (\<lambda>g. keeps_shape (gate_heap H g)) gs" by simp_all
  show ?case
  proof (cases "gate_cls (gate_heap H g) = CallbackGate")
    case True
    with Cons.prems(2) obtain cr1 where
      "execute_for_compile_loop H gs w s cr1 = (Inr (s', cr'), w')"
      by (auto split: option.splits)
    from Cons.IH [OF rest this] show ?thesis .
  next
    case False
    with Cons.prems(2) obtain s1 w1 where
      step: "call (gate_heap H g) w s = (Inr s1, w1)" and
      more: "execute_for_compile_loop H gs w1 s1 cr = (Inr (s', cr'), w')"
      by (auto split: prod.splits sum.splits)
    from ks step have "shape s1 = shape s" unfolding keeps_shape_def by blast
    with Cons.IH [OF rest more] show ?thesis by simp
  qed
qed

lemma run_queue_shape:
  "list_all (\<lambda>g. keeps_shape (gate_heap H g)) (queue c) \<Longrightarrow>
   run_queue H c w s = (Inr s', w') \<Longrightarrow> shape s' = shape s"
  by (auto simp: run_queue_def execute_for_compile_def split: if_splits prod.splits sum.splits
      dest: eager_execute_shape execute_for_compile_loop_shape)

lemma constructed_shapes:
  "constructed c \<Longrightarrow>
   TENSOR_FLAT (shapes c) = FLAT (shapes c) \<and>
   FLAT (shapes c) = (if density_matrix c then [2 ^ nqubits c, 2 ^ nqubits c]
                      else [2 ^ nqubits c])"
  by (simp add: constructed_def DensityMatrixCircuit_def Circuit_def)

lemma get_initial_state_shape:
  "constructed c \<Longrightarrow> get_initial_state c i = Inr s \<Longrightarrow> shape s = FLAT (shapes c)"
  by (cases i)
    (auto simp: get_initial_state_def K_initial_state_def constructed_def
      DensityMatrixCircuit_def Circuit_def split: sum.splits if_splits)

lemma u_execute_shape:
  assumes "constructed c"
    and "custom_gates K \<longrightarrow> list_all (\<lambda>g. keeps_shape (gate_heap H g)) (queue c)"
    and "u_execute K H c w i = (Inr s, c', w')"
  shows "shape s = FLAT (shapes c)"
proof (cases "custom_gates K")
  case False
  with assms(3) obtain s1 where "K_reshape s1 (TENSOR_FLAT (shapes c)) = Inr s"
    by (auto simp: u_execute_def Let_def split: sum.splits prod.splits)
  then have "shape s = TENSOR_FLAT (shapes c)"
    by (auto simp: K_reshape_def split: if_splits)
  with constructed_shapes [OF assms(1)] show ?thesis by simp
next
  case True
  with assms(3) obtain s0 where
    init: "get_initial_state (c\<lparr>u_final_state := None\<rparr>) i = Inr s0" and
    run: "run_queue H (c\<lparr>u_final_state := None\<rparr>) w s0 = (Inr s, w')"
    by (auto simp: u_execute_def Let_def split: sum.splits prod.splits)
  from init have "shape s0 = FLAT (shapes c)"
    using get_initial_state_shape [OF assms(1)] by (simp add: get_initial_state_reset)
  moreover from True assms(2) run have "shape s = shape s0"
    using run_queue_shape [of H "c\<lparr>u_final_state := None\<rparr>"] by simp
  ultimately show ?thesis by simp
qed

lemma device_execute_shape:
  assumes "constructed c"
    and "custom_gates K \<longrightarrow> list_all (\<lambda>g. keeps_shape (gate_heap H g)) (queue c)"
    and "device_execute K H c w i = (Inr s, c', w')"
  shows "shape s = FLAT (shapes c)"
proof -
  from assms(3) obtain c1 w1 where "u_execute K H c w i = (Inr s, c1, w1)"
    by (auto simp: device_execute_def split: prod.splits sum.splits)
  from u_execute_shape [OF assms(1,2) this] show ?thesis .
qed

lemma device_execute_Inr:
  "device_execute K H c w i = (Inr s, c', w') \<Longrightarrow> fst (u_execute K H c w i) = Inr s"
  by (auto simp: device_execute_def split: prod.splits sum.splits)

lemma K_copy_id: "K_copy x = x"
  by (simp add: K_copy_def map_idI)

lemma single_shot_props:
  assumes "single_shot K H c i w = (Inr (s, x), w')"
  shows "fst (u_execute K H c w i) = Inr s"
    and "measurement_gate c = None \<Longrightarrow> x = s"
    and "measurement_gate c \<noteq> None \<Longrightarrow> shape x = []"
  using assms
  by (auto simp: single_shot_def K_copy_id getitem_def
      split: prod.splits sum.splits option.splits if_splits dest: device_execute_Inr)

lemma single_shot_shape:
  assumes "constructed c"
    and "custom_gates K \<longrightarrow> list_all (\<lambda>g. keeps_shape (gate_heap H g)) (queue c)"
    and "single_shot K H c i w = (Inr (s, x), w')"
  shows "shape s = FLAT (shapes c)"
  using assms(3) device_execute_shape [OF assms(1,2)]
  by (auto simp: single_shot_def split: prod.splits sum.splits option.splits)

lemma independent_shots_all:
  assumes "\<And>w s x w'. single_shot K H c i w = (Inr (s, x), w') \<Longrightarrow> P (s, x)"
  shows "independent_shots K H c i k w = (Inr ps, w') \<Longrightarrow> list_all P ps"
proof (induction k arbitrary: w ps w')
  case 0
  then show ?case by simp
next
  case (Suc k)
  then show ?case
    by (auto split: prod.splits sum.splits dest: assms)
qed

lemma K_stack_same_shape:
  "xs \<noteq> [] \<Longrightarrow> list_all (\<lambda>y. shape y = shp) xs \<Longrightarrow>
   \<exists>t. K_stack K xs = Inr t \<and> shape t = length xs # shp \<and> data t = concat (map data xs)"
  by (cases xs) (auto simp: K_stack_def list_all_iff)

lemma independent_shots_ok:
  assumes "constructed c"
    and "custom_gates K \<longrightarrow> list_all (\<lambda>g. keeps_shape (gate_heap H g)) (queue c)"
    and "fst (independent_shots K H c i k w) = Inr ps"
  shows "list_all (shot_ok K H c i) ps"
proof -
  obtain w' where run: "independent_shots K H c i k w = (Inr ps, w')"
    using assms(3) by (cases "independent_shots K H c i k w") simp
  have "\<And>w s x w'. single_shot K H c i w = (Inr (s, x), w') \<Longrightarrow> shot_ok K H c i (s, x)"
    unfolding shot_ok_def
    using single_shot_props single_shot_shape [OF assms(1,2)]
    by (metis fst_conv snd_conv)
  from independent_shots_all [of K H c i "shot_ok K H c i", OF this run]
  show ?thesis .
qed

lemma repeated_execute_success:
  assumes "fst (independent_shots K H c i (nat n) w) = Inr ps"
  shows "repeated_execute K H (c\<lparr>u_final_state := None\<rparr>) w n i =
     (let c' = c\<lparr>u_final_state := (if ps = [] then None else Some (fst (last ps)))\<rparr>;
          w' = snd (independent_shots K H c i (nat n) w) in
      case K_stack K (map snd ps) of
        Inl e \<Rightarrow> (Inl e, c', w')
      | Inr stacked \<Rightarrow>
          (case measurement_gate c of
             None \<Rightarrow> (Inr (State stacked), c', w')
           | Some m \<Rightarrow>
               (Inr (Result \<lparr>cr_measurement_tuples = measurement_tuples c,
                             measurement_gate_result = \<lparr>gr_qubits = qubits (gate_heap H m),
                               decimal_samples = stacked\<rparr>\<rparr>), c', w')))"
proof -
  let ?c0 = "c\<lparr>u_final_state := None\<rparr>"
  let ?L = "repeated_execute_loop K H i (nat n) ?c0 w []"
  have sh: "fst (independent_shots K H ?c0 i (nat n) w) = Inr ps"
    using assms by (simp add: independent_shots_reset)
  have 1: "fst ?L = Inr (map snd ps)"
    by (simp add: loop_result sh)
  have 2: "fst (snd ?L) = c\<lparr>u_final_state := (if ps = [] then None else Some (fst (last ps)))\<rparr>"
    using loop_circuit [OF sh, of "[]"] by simp
  have 3: "snd (snd ?L) = snd (independent_shots K H c i (nat n) w)"
    by (simp add: loop_world independent_shots_reset)
  obtain r c1 w1 where L: "?L = (r, c1, w1)" by (cases ?L) auto
  with 1 2 3 show ?thesis
    by (simp add: repeated_execute_def Let_def split: sum.split option.split)
qed

lemma repeated_execute_failure:
  assumes "fst (independent_shots K H c i (nat n) w) = Inl e"
  shows "fst (repeated_execute K H (c\<lparr>u_final_state := None\<rparr>) w n i) = Inl e"
proof -
  let ?c0 = "c\<lparr>u_final_state := None\<rparr>"
  let ?L = "repeated_execute_loop K H i (nat n) ?c0 w []"
  have "fst ?L = Inl e"
    using assms by (simp add: loop_result independent_shots_reset)
  moreover obtain r c1 w1 where L: "?L = (r, c1, w1)" by (cases ?L) auto
  ultimately show ?thesis by (simp add: repeated_execute_def)
qed

lemma execute_repeated:
  "repeated_execution c \<Longrightarrow>
   execute K H c w i (Some n) = repeated_execute K H (c\<lparr>u_final_state := None\<rparr>) w n i"
  by (simp add: execute_def)

text \<open>
  Claim C2, for at least one shot. A state-vector circuit with stochastic channels is
  executed with \<open>nshots = n\<close>, \<open>n \<ge> 1\<close>, and every shot succeeds. Then the loop of the
  source computes what \<open>n\<close> independent shots compute, each a run of the whole queue of the
  circuit from the given initial state: without a measurement gate the call returns the
  stacked final states, a tensor of shape \<open>(n, 2^nqubits)\<close>; with one it returns a single
  result record whose samples are the \<open>n\<close> one-shot samples, a tensor of shape \<open>(n,)\<close>.
\<close>

theorem repeated_execution_shots:
  assumes "constructed c" and "\<not> density_matrix c" and "repeated_execution c" and "0 < n"
    and "custom_gates K \<longrightarrow> list_all (\<lambda>g. keeps_shape (gate_heap H g)) (queue c)"
    and "fst (independent_shots K H c initial_state (nat n) w) = Inr ps"
  shows "length ps = nat n \<and>
    (\<exists>t. fst (execute K H c w initial_state (Some n)) =
          Inr (case measurement_gate c of
                 None \<Rightarrow> State t
               | Some m \<Rightarrow>
                   Result \<lparr>cr_measurement_tuples = measurement_tuples c,
                           measurement_gate_result =
                             \<lparr>gr_qubits = qubits (gate_heap H m), decimal_samples = t\<rparr>\<rparr>) \<and>
         shape t = (case measurement_gate c of
                      None \<Rightarrow> [nat n, 2 ^ nqubits c] | Some m \<Rightarrow> [nat n]) \<and>
         data t = concat (map (data \<circ> snd) ps))"
proof -
  have len: "length ps = nat n"
    using independent_shots_length [OF assms(6)] .
  with assms(4) have ne: "map snd ps \<noteq> []" by auto
  have ok: "list_all (shot_ok K H c initial_state) ps"
    using independent_shots_ok [OF assms(1,5,6)] .
  have flat: "FLAT (shapes c) = [2 ^ nqubits c]"
    using constructed_shapes [OF assms(1)] assms(2) by simp
  let ?shp = "case measurement_gate c of None \<Rightarrow> [2 ^ nqubits c] | Some m \<Rightarrow> []"
  have "list_all (\<lambda>y. shape y = ?shp) (map snd ps)"
    using ok flat by (auto simp: list_all_iff shot_ok_def split: option.split)
  from K_stack_same_shape [OF ne this, of K] obtain t where
    t: "K_stack K (map snd ps) = Inr t" "shape t = length (map snd ps) # ?shp"
       "data t = concat (map data (map snd ps))" by blast
  have "fst (execute K H c w initial_state (Some n)) =
          Inr (case measurement_gate c of
                 None \<Rightarrow> State t
               | Some m \<Rightarrow>
                   Result \<lparr>cr_measurement_tuples = measurement_tuples c,
                           measurement_gate_result =
                             \<lparr>gr_qubits = qubits (gate_heap H m), decimal_samples = t\<rparr>\<rparr>)"
    by (simp add: execute_repeated [OF assms(3)] repeated_execute_success [OF assms(6)] t(1)
        Let_def split: option.split)
  moreover have "shape t = (case measurement_gate c of
                      None \<Rightarrow> [nat n, 2 ^ nqubits c] | Some m \<Rightarrow> [nat n])"
    using t(2) len by (simp split: option.split)
  moreover have "data t = concat (map (data \<circ> snd) ps)"
    using t(3) by simp
  ultimately show ?thesis using len by blast
qed

text \<open>
  Claim C10, for at least one shot. After \<^verbatim>\<open>execute\<close> has completed in repeated-execution
  mode with \<open>n \<ge> 1\<close> shots, \<open>final_state\<close> does not raise: it returns the final state of the
  last shot, the result of a single pass of \<^verbatim>\<open>_execute\<close>, of flat shape \<open>(2^nqubits,)\<close>, and
  this is not the value that \<^verbatim>\<open>execute\<close> returned.
\<close>

theorem repeated_execution_final_state:
  assumes "constructed c" and "\<not> density_matrix c" and "repeated_execution c" and "0 < n"
    and "custom_gates K \<longrightarrow> list_all (\<lambda>g. keeps_shape (gate_heap H g)) (queue c)"
    and "execute K H c w initial_state (Some n) = (Inr r, c', w')"
  shows "\<exists>ps. fst (independent_shots K H c initial_state (nat n) w) = Inr ps \<and> ps \<noteq> [] \<and>
           final_state c' = Inr (fst (last ps)) \<and>
           shape (fst (last ps)) = [2 ^ nqubits c] \<and>
           (\<exists>w0. fst (u_execute K H c w0 initial_state) = Inr (fst (last ps))) \<and>
           r \<noteq> State (fst (last ps))"
proof -
  have rep: "repeated_execute K H (c\<lparr>u_final_state := None\<rparr>) w n initial_state = (Inr r, c', w')"
    using assms(6) by (simp add: execute_repeated [OF assms(3)])
  obtain ps where ps: "fst (independent_shots K H c initial_state (nat n) w) = Inr ps"
  proof (cases "fst (independent_shots K H c initial_state (nat n) w)")
    case (Inl e)
    from repeated_execute_failure [OF this] rep show ?thesis by simp
  next
    case (Inr ps)
    then show ?thesis by (rule that)
  qed
  have len: "length ps = nat n"
    using independent_shots_length [OF ps] .
  with assms(4) have ne: "ps \<noteq> []" by auto
  have ok: "list_all (shot_ok K H c initial_state) ps"
    using independent_shots_ok [OF assms(1,5) ps] .
  have flat: "FLAT (shapes c) = [2 ^ nqubits c]"
    using constructed_shapes [OF assms(1)] assms(2) by simp
  from ok ne have last_ok: "shot_ok K H c initial_state (last ps)"
    by (simp add: list_all_iff)
  let ?s = "fst (last ps)"
  from rep ne have c': "c' = c\<lparr>u_final_state := Some ?s\<rparr>"
    by (auto simp: repeated_execute_success [OF ps] Let_def split: sum.splits option.splits)
  then have fs: "final_state c' = Inr ?s" by (simp add: final_state_def)
  have shp: "shape ?s = [2 ^ nqubits c]"
    using last_ok flat by (simp add: shot_ok_def)
  have run: "\<exists>w0. fst (u_execute K H c w0 initial_state) = Inr ?s"
    using last_ok by (simp add: shot_ok_def)
  have "r \<noteq> State ?s"
  proof
    assume eq: "r = State ?s"
    with rep have none: "measurement_gate c = None"
      and st: "K_stack K (map snd ps) = Inr ?s"
      by (auto simp: repeated_execute_success [OF ps] Let_def split: sum.splits option.splits)
    from ok none flat have "list_all (\<lambda>y. shape y = [2 ^ nqubits c]) (map snd ps)"
      by (auto simp: list_all_iff shot_ok_def)
    from K_stack_same_shape [OF _ this, of K] ne st
    have "shape ?s = length ps # [2 ^ nqubits c]" by auto
    with shp show False by simp
  qed
  with ps ne fs shp run show ?thesis by blast
qed

lemma u_execute_final_state:
  "u_final_state (fst (snd (u_execute K H c w i))) =
     (case fst (u_execute K H c w i) of Inl e \<Rightarrow> None | Inr s \<Rightarrow> Some s)"
  by (cases "u_execute K H c w i") (auto dest: u_execute_circuit split: sum.splits)

lemma device_execute_final_state:
  "u_final_state (fst (snd (device_execute K H c w i))) =
     (case fst (u_execute K H c w i) of Inl e \<Rightarrow> None | Inr s \<Rightarrow> Some s)"
  by (cases "u_execute K H c w i")
    (auto simp: device_execute_def dest: u_execute_circuit split: sum.splits)

lemma repeated_execute_final:
  "u_final_state (fst (snd (repeated_execute K H c w n i))) =
   u_final_state (fst (snd (repeated_execute_loop K H i (nat n) c w [])))"
  by (cases "repeated_execute_loop K H i (nat n) c w []")
    (auto simp: repeated_execute_def split: sum.splits option.splits)

lemma passes_cases:
  "(\<exists>m. n = Some m \<and> repeated_execution c \<and> passes c n = nat m) \<or>
   ((repeated_execution c \<longrightarrow> n = None) \<and> passes c n = 1)"
  by (cases n; cases "repeated_execution c") (simp_all add: passes_def)

lemma independent_shots_Suc_Inr:
  "independent_shots K H c i (Suc j) w = (Inr qs, w') \<longleftrightarrow>
   (\<exists>p w1 ps. single_shot K H c i w = (Inr p, w1) \<and>
      independent_shots K H c i j w1 = (Inr ps, w') \<and> qs = p # ps)"
  by (subst independent_shots.simps(2)) (auto split: prod.splits sum.splits)

lemma independent_shots_last:
  "independent_shots K H c i (Suc j) w = (Inr qs, w') \<Longrightarrow>
   \<exists>ps p wj. independent_shots K H c i j w = (Inr ps, wj) \<and>
     single_shot K H c i wj = (Inr p, w') \<and> qs = ps @ [p]"
proof (induction j arbitrary: w qs)
  case 0
  then obtain p w1 ps where
    "single_shot K H c i w = (Inr p, w1)" "independent_shots K H c i 0 w1 = (Inr ps, w')"
    "qs = p # ps"
    unfolding independent_shots_Suc_Inr by blast
  then show ?case by auto
next
  case (Suc j)
  from Suc.prems obtain p0 w1 qs' where
    ss: "single_shot K H c i w = (Inr p0, w1)" and
    rest: "independent_shots K H c i (Suc j) w1 = (Inr qs', w')" and
    qs: "qs = p0 # qs'"
    unfolding independent_shots_Suc_Inr [of K H c i "Suc j"] by blast
  from Suc.IH [OF rest] obtain ps p wj where
    1: "independent_shots K H c i j w1 = (Inr ps, wj)" and
    2: "single_shot K H c i wj = (Inr p, w')" and
    3: "qs' = ps @ [p]" by blast
  from ss 1 have "independent_shots K H c i (Suc j) w = (Inr (p0 # ps), wj)"
    unfolding independent_shots_Suc_Inr [of K H c i j] by blast
  with 2 3 qs show ?case by auto
qed

lemma loop_failed_pass:
  "j < k \<Longrightarrow> independent_shots K H c i j w = (Inr ps, wj) \<Longrightarrow>
   fst (u_execute K H c wj i) = Inl e \<Longrightarrow>
   (\<exists>e'. fst (repeated_execute_loop K H i k c w rs) = Inl e') \<and>
   u_final_state (fst (snd (repeated_execute_loop K H i k c w rs))) = None"
proof (induction j arbitrary: k c w rs ps)
  case 0
  then obtain k' where k: "k = Suc k'" by (cases k) auto
  from 0 have wj: "wj = w" by simp
  from 0(3) wj obtain c1 w1 where u: "u_execute K H c w i = (Inl e, c1, w1)"
    by (cases "u_execute K H c w i") auto
  then have "\<exists>e' w'. single_shot K H c i w = (Inl e', w')"
    by (simp add: single_shot_def device_execute_def)
  moreover have "u_final_state (fst (snd (device_execute K H c w i))) = None"
    using u by (simp add: device_execute_final_state)
  ultimately show ?case
    unfolding k loop_Suc by auto
next
  case (Suc j)
  then obtain k' where k: "k = Suc k'" and jk: "j < k'" by (cases k) auto
  from Suc.prems(2) obtain s x w1 ps' where
    ss: "single_shot K H c i w = (Inr (s, x), w1)" and
    rest: "independent_shots K H c i j w1 = (Inr ps', wj)"
    unfolding independent_shots_Suc_Inr by auto
  let ?c1 = "c\<lparr>u_final_state := Some s\<rparr>"
  have r1: "independent_shots K H ?c1 i j w1 = (Inr ps', wj)"
    using rest by (simp add: independent_shots_reset)
  have r2: "fst (u_execute K H ?c1 wj i) = Inl e"
    using Suc.prems(3) by (simp add: u_execute_reset)
  from Suc.IH [OF jk r1 r2, of "rs @ [x]"] ss show ?case
    unfolding k loop_Suc by simp
qed

lemma failed_pass_clears:
  assumes "j < passes c n" and "independent_shots K H c i j w = (Inr ps, wj)"
    and "fst (u_execute K H c wj i) = Inl e"
  shows "(\<exists>e'. fst (execute K H c w i n) = Inl e') \<and>
         u_final_state (fst (snd (execute K H c w i n))) = None"
proof -
  from passes_cases [of n c] show ?thesis
  proof
    assume "\<exists>m. n = Some m \<and> repeated_execution c \<and> passes c n = nat m"
    then obtain m where m: "n = Some m" "repeated_execution c" "passes c n = nat m" by blast
    let ?c0 = "c\<lparr>u_final_state := None\<rparr>"
    have r1: "independent_shots K H ?c0 i j w = (Inr ps, wj)"
      using assms(2) by (simp add: independent_shots_reset)
    have r2: "fst (u_execute K H ?c0 wj i) = Inl e"
      using assms(3) by (simp add: u_execute_reset)
    from assms(1) m have jk: "j < nat m" by simp
    from loop_failed_pass [OF jk r1 r2, of "[]"] obtain e' where
      l: "fst (repeated_execute_loop K H i (nat m) ?c0 w []) = Inl e'"
         "u_final_state (fst (snd (repeated_execute_loop K H i (nat m) ?c0 w []))) = None"
      by blast
    from l(1) have "fst (repeated_execute K H ?c0 w m i) = Inl e'"
      by (cases "repeated_execute_loop K H i (nat m) ?c0 w []")
        (simp add: repeated_execute_def)
    with l(2) show ?thesis
      by (auto simp: m execute_repeated repeated_execute_final)
  next
    assume a: "(repeated_execution c \<longrightarrow> n = None) \<and> passes c n = 1"
    with assms(1,2) have wj: "wj = w" by simp
    from assms(3) wj obtain c1 w1 where u: "u_execute K H c w i = (Inl e, c1, w1)"
      by (cases "u_execute K H c w i") auto
    from u_execute_circuit [OF u] have c1: "u_final_state c1 = None" by simp
    from a u c1 show ?thesis
      by (cases n; cases "repeated_execution c")
        (auto simp: execute_def device_execute_def)
  qed
qed

lemma first_pass_failed:
  assumes "fst (u_execute K H c w i) = Inl e"
  shows "u_final_state (fst (snd (execute K H c w i n))) = None"
proof (cases "0 < passes c n")
  case True
  from failed_pass_clears [where ps = "[]" and j = 0 and wj = w, OF True _ assms]
  show ?thesis by simp
next
  case False
  with passes_cases [of n c] obtain m where
    m: "n = Some m" "repeated_execution c" "nat m = 0" by auto
  show ?thesis
    by (simp add: m execute_repeated repeated_execute_final)
qed

lemma nth_pass_Some:
  "nth_pass K H c i w j = Some r \<longleftrightarrow>
   (\<exists>ps wj. independent_shots K H c i j w = (Inr ps, wj) \<and> fst (u_execute K H c wj i) = r)"
  by (cases "independent_shots K H c i j w")
    (auto simp: nth_pass_def split: sum.splits)

lemma nth_shot_Some:
  "nth_shot K H c i w j = Some r \<longleftrightarrow>
   (\<exists>ps wj. independent_shots K H c i j w = (Inr ps, wj) \<and> fst (single_shot K H c i wj) = r)"
  by (cases "independent_shots K H c i j w")
    (auto simp: nth_shot_def split: sum.splits)

lemma nth_pass_reset:
  "nth_pass K H (c\<lparr>u_final_state := x\<rparr>) i w j = nth_pass K H c i w j"
  by (simp add: nth_pass_def independent_shots_reset u_execute_reset split: prod.split sum.split)

lemma nth_shot_reset:
  "nth_shot K H (c\<lparr>u_final_state := x\<rparr>) i w j = nth_shot K H c i w j"
  by (simp add: nth_shot_def independent_shots_reset single_shot_reset split: prod.split sum.split)

lemma nth_pass_0: "nth_pass K H c i w 0 = Some (fst (u_execute K H c w i))"
  by (simp add: nth_pass_def)

lemma nth_shot_0: "nth_shot K H c i w 0 = Some (fst (single_shot K H c i w))"
  by (simp add: nth_shot_def)

lemma nth_pass_Suc:
  "single_shot K H c i w = (Inr p, w1) \<Longrightarrow>
   nth_pass K H c i w (Suc j) = nth_pass K H c i w1 j"
  by (cases "independent_shots K H c i j w1")
    (auto simp: nth_pass_def split: sum.splits)

lemma nth_shot_Suc:
  "single_shot K H c i w = (Inr p, w1) \<Longrightarrow>
   nth_shot K H c i w (Suc j) = nth_shot K H c i w1 j"
  by (cases "independent_shots K H c i j w1")
    (auto simp: nth_shot_def split: sum.splits)

text \<open>the final state a failed loop leaves\<close>

lemma loop_failure_final:
  "fst (repeated_execute_loop K H i k c w rs) = Inl e \<Longrightarrow>
   u_final_state (fst (snd (repeated_execute_loop K H i k c w rs))) = None \<or>
   (\<exists>j s e'. j < k \<and> nth_pass K H c i w j = Some (Inr s) \<and>
      nth_shot K H c i w j = Some (Inl e') \<and>
      u_final_state (fst (snd (repeated_execute_loop K H i k c w rs))) = Some s)"
proof (induction k arbitrary: c w rs)
  case 0
  then show ?case by simp
next
  case (Suc k)
  obtain r w1 where ss: "single_shot K H c i w = (r, w1)"
    by (cases "single_shot K H c i w")
  show ?case
  proof (cases r)
    case (Inl e1)
    with ss have l: "repeated_execute_loop K H i (Suc k) c w rs =
        (Inl e1, fst (snd (device_execute K H c w i)), w1)"
      unfolding loop_Suc by simp
    show ?thesis
    proof (cases "fst (u_execute K H c w i)")
      case Inl
      then show ?thesis unfolding l by (simp add: device_execute_final_state)
    next
      case (Inr s)
      then have "nth_pass K H c i w 0 = Some (Inr s)" by (simp add: nth_pass_0)
      moreover have "nth_shot K H c i w 0 = Some (Inl e1)"
        using ss \<open>r = Inl e1\<close> by (simp add: nth_shot_0)
      moreover have "u_final_state (fst (snd (repeated_execute_loop K H i (Suc k) c w rs))) = Some s"
        using Inr unfolding l by (simp add: device_execute_final_state)
      ultimately show ?thesis by blast
    qed
  next
    case (Inr p)
    obtain s x where p: "p = (s, x)" by (cases p)
    let ?c1 = "c\<lparr>u_final_state := Some s\<rparr>"
    from ss Inr p have ss': "single_shot K H c i w = (Inr (s, x), w1)" by simp
    then have l: "repeated_execute_loop K H i (Suc k) c w rs =
        repeated_execute_loop K H i k ?c1 w1 (rs @ [x])"
      unfolding loop_Suc by simp
    from Suc.prems have "fst (repeated_execute_loop K H i k ?c1 w1 (rs @ [x])) = Inl e"
      unfolding l .
    from Suc.IH [OF this]
    have "u_final_state (fst (snd (repeated_execute_loop K H i k ?c1 w1 (rs @ [x])))) = None \<or>
      (\<exists>j s' e'. j < k \<and> nth_pass K H c i w1 j = Some (Inr s') \<and>
         nth_shot K H c i w1 j = Some (Inl e') \<and>
         u_final_state (fst (snd (repeated_execute_loop K H i k ?c1 w1 (rs @ [x])))) = Some s')"
      by (simp add: nth_pass_reset nth_shot_reset)
    then show ?thesis
    proof
      assume "u_final_state (fst (snd (repeated_execute_loop K H i k ?c1 w1 (rs @ [x])))) = None"
      then show ?thesis unfolding l by simp
    next
      assume "\<exists>j s' e'. j < k \<and> nth_pass K H c i w1 j = Some (Inr s') \<and>
         nth_shot K H c i w1 j = Some (Inl e') \<and>
         u_final_state (fst (snd (repeated_execute_loop K H i k ?c1 w1 (rs @ [x])))) = Some s'"
      then obtain j s' e' where j: "j < k" "nth_pass K H c i w1 j = Some (Inr s')"
        "nth_shot K H c i w1 j = Some (Inl e')"
        "u_final_state (fst (snd (repeated_execute_loop K H i k ?c1 w1 (rs @ [x])))) = Some s'"
        by blast
      have "Suc j < Suc k" using j(1) by simp
      moreover have "nth_pass K H c i w (Suc j) = Some (Inr s')"
        using nth_pass_Suc [OF ss'] j(2) by simp
      moreover have "nth_shot K H c i w (Suc j) = Some (Inl e')"
        using nth_shot_Suc [OF ss'] j(3) by simp
      moreover have "u_final_state (fst (snd (repeated_execute_loop K H i (Suc k) c w rs))) = Some s'"
        using j(4) unfolding l .
      ultimately show ?thesis by blast
    qed
  qed
qed

text \<open>the final state a completed loop leaves\<close>

lemma loop_success_final:
  assumes "fst (repeated_execute_loop K H i (Suc j) c w rs) = Inr rs'"
  shows "\<exists>s. nth_pass K H c i w j = Some (Inr s) \<and>
     u_final_state (fst (snd (repeated_execute_loop K H i (Suc j) c w rs))) = Some s"
proof -
  from assms obtain qs where qs: "fst (independent_shots K H c i (Suc j) w) = Inr qs"
    unfolding loop_result [of K H i "Suc j"]
    by (cases "fst (independent_shots K H c i (Suc j) w)") auto
  then obtain wf where run: "independent_shots K H c i (Suc j) w = (Inr qs, wf)"
    by (cases "independent_shots K H c i (Suc j) w") auto
  from independent_shots_last [OF run] obtain ps p wj where
    1: "independent_shots K H c i j w = (Inr ps, wj)" and
    2: "single_shot K H c i wj = (Inr p, wf)" and
    3: "qs = ps @ [p]" by blast
  obtain s x where p: "p = (s, x)" by (cases p)
  from single_shot_props(1) [OF 2 [unfolded p]] have "fst (u_execute K H c wj i) = Inr s" .
  with 1 have "nth_pass K H c i w j = Some (Inr s)"
    unfolding nth_pass_Some by blast
  moreover from loop_circuit [OF qs, of rs] 3 p
  have "u_final_state (fst (snd (repeated_execute_loop K H i (Suc j) c w rs))) = Some s"
    by simp
  ultimately show ?thesis by blast
qed

lemma repeated_execute_circuit:
  "fst (snd (repeated_execute K H c w n i)) =
   fst (snd (repeated_execute_loop K H i (nat n) c w []))"
  by (cases "repeated_execute_loop K H i (nat n) c w []")
    (auto simp: repeated_execute_def split: sum.splits option.splits)

lemma repeated_execute_Inr_loop:
  "fst (repeated_execute K H c w n i) = Inr r \<Longrightarrow>
   \<exists>rs. fst (repeated_execute_loop K H i (nat n) c w []) = Inr rs"
  by (cases "repeated_execute_loop K H i (nat n) c w []")
    (auto simp: repeated_execute_def split: sum.splits option.splits)

lemma failed_pass_raises:
  assumes "j < passes c n" and "nth_pass K H c i w j = Some (Inl e)"
  shows "(\<exists>e'. fst (execute K H c w i n) = Inl e') \<and>
         final_state (fst (snd (execute K H c w i n))) = Inl RuntimeError"
proof -
  from assms(2) obtain ps wj where
    "independent_shots K H c i j w = (Inr ps, wj)" "fst (u_execute K H c wj i) = Inl e"
    unfolding nth_pass_Some by blast
  from failed_pass_clears [OF assms(1) this] show ?thesis
    by (simp add: final_state_def)
qed

lemma failed_call_final_state:
  assumes "fst (execute K H c w i n) = Inl e"
  shows "u_final_state (fst (snd (execute K H c w i n))) = None \<or>
     (\<exists>j s. j < passes c n \<and> nth_pass K H c i w j = Some (Inr s) \<and>
        (Suc j = passes c n \<or> (\<exists>e'. nth_shot K H c i w j = Some (Inl e'))) \<and>
        u_final_state (fst (snd (execute K H c w i n))) = Some s)"
proof -
  from passes_cases [of n c] show ?thesis
  proof
    assume "\<exists>m. n = Some m \<and> repeated_execution c \<and> passes c n = nat m"
    then obtain m where m: "n = Some m" "repeated_execution c" "passes c n = nat m" by blast
    let ?c0 = "c\<lparr>u_final_state := None\<rparr>"
    let ?L = "repeated_execute_loop K H i (nat m) ?c0 w []"
    have ex: "execute K H c w i n = repeated_execute K H ?c0 w m i"
      by (simp add: m execute_repeated)
    have fin: "u_final_state (fst (snd (execute K H c w i n))) = u_final_state (fst (snd ?L))"
      by (simp add: ex repeated_execute_circuit)
    show ?thesis
    proof (cases "fst ?L")
      case (Inl e1)
      from loop_failure_final [OF Inl] show ?thesis
        unfolding fin m(3) nth_pass_reset nth_shot_reset by blast
    next
      case (Inr rs)
      show ?thesis
      proof (cases "nat m")
        case 0
        then show ?thesis unfolding fin by simp
      next
        case (Suc j)
        from Inr have "fst (repeated_execute_loop K H i (Suc j) ?c0 w []) = Inr rs"
          by (simp add: Suc)
        from loop_success_final [OF this] obtain s where
          "nth_pass K H c i w j = Some (Inr s)" "u_final_state (fst (snd ?L)) = Some s"
          by (auto simp: Suc nth_pass_reset)
        then show ?thesis unfolding fin m(3) Suc by blast
      qed
    qed
  next
    assume a: "(repeated_execution c \<longrightarrow> n = None) \<and> passes c n = 1"
    obtain r c1 w1 where d: "device_execute K H c w i = (r, c1, w1)"
      by (cases "device_execute K H c w i")
    have fin: "u_final_state (fst (snd (execute K H c w i n))) = u_final_state c1"
      using a d
      by (cases n; cases "repeated_execution c")
        (auto simp: execute_def split: sum.splits option.splits prod.splits)
    have c1: "u_final_state c1 = (case fst (u_execute K H c w i) of Inl e \<Rightarrow> None | Inr s \<Rightarrow> Some s)"
      using device_execute_final_state [of K H c w i] d by simp
    show ?thesis
    proof (cases "fst (u_execute K H c w i)")
      case (Inl e1)
      then show ?thesis by (simp add: fin c1)
    next
      case (Inr s)
      then have "nth_pass K H c i w 0 = Some (Inr s)" by (simp add: nth_pass_0)
      moreover have "u_final_state (fst (snd (execute K H c w i n))) = Some s"
        using Inr by (simp add: fin c1)
      ultimately show ?thesis using a by auto
    qed
  qed
qed

lemma completed_call_final_state:
  assumes "execute K H c w i n = (Inr r, c', w')" and "0 < passes c n"
  shows "nth_pass K H c i w (passes c n - 1) = Some (final_state c') \<and>
         (\<exists>s. final_state c' = Inr s)"
proof -
  from passes_cases [of n c] show ?thesis
  proof
    assume "\<exists>m. n = Some m \<and> repeated_execution c \<and> passes c n = nat m"
    then obtain m where m: "n = Some m" "repeated_execution c" "passes c n = nat m" by blast
    let ?c0 = "c\<lparr>u_final_state := None\<rparr>"
    have ex: "repeated_execute K H ?c0 w m i = (Inr r, c', w')"
      using assms(1) by (simp add: m execute_repeated)
    from assms(2) m obtain j where j: "nat m = Suc j" by (cases "nat m") auto
    from ex have "fst (repeated_execute K H ?c0 w m i) = Inr r" by simp
    from repeated_execute_Inr_loop [OF this] obtain rs where
      "fst (repeated_execute_loop K H i (Suc j) ?c0 w []) = Inr rs" by (auto simp: j)
    from loop_success_final [OF this] obtain s where
      s: "nth_pass K H c i w j = Some (Inr s)"
         "u_final_state (fst (snd (repeated_execute_loop K H i (Suc j) ?c0 w []))) = Some s"
      by (auto simp: nth_pass_reset)
    have "c' = fst (snd (repeated_execute_loop K H i (nat m) ?c0 w []))"
      using ex repeated_execute_circuit [of K H ?c0 w m i] by simp
    with s(2) have "final_state c' = Inr s" by (simp add: final_state_def j)
    
    moreover have "passes c n - 1 = j" using m(3) j by simp
    ultimately show ?thesis using s(1) by simp
  next
    assume a: "(repeated_execution c \<longrightarrow> n = None) \<and> passes c n = 1"
    with assms(1) obtain st w1 where d1: "device_execute K H c w i = (Inr st, c', w1)"
      by (cases n; cases "repeated_execution c")
        (auto simp: execute_def split: sum.splits option.splits prod.splits)
    from device_execute_circuit [OF d1] have "final_state c' = Inr st"
      by (simp add: final_state_def)
    moreover from device_execute_Inr [OF d1] have "fst (u_execute K H c w i) = Inr st" .
    ultimately show ?thesis using a by (simp add: nth_pass_0)
  qed
qed


text \<open>
  Claim C3, as the code has it. \<^verbatim>\<open>_execute\<close> clears \<^verbatim>\<open>_final_state\<close> on entry and
  \<^verbatim>\<open>execute\<close> clears it before repeated execution, so the value of an earlier execution
  does not survive a failed one. If a pass of \<^verbatim>\<open>_execute\<close> fails while the initial state
  is resolved or the queue is applied, \<open>final_state\<close> raises afterwards. That holds for the
  first pass of an \<^verbatim>\<open>execute\<close> call in either mode, and for every later pass of a repeated
  execution that is reached (\<open>nth_pass\<close>): the call then fails and leaves the attribute
  unset. After any failed \<^verbatim>\<open>execute\<close> call the attribute is unset, or it holds the complete
  result of the last pass the call itself ran (its final pass, or the pass whose sampling
  then failed): never a half-applied state and never the value from before the call.
\<close>

theorem failed_execution_final_state:
  "(fst (u_execute K H c w i) = Inl e \<longrightarrow>
      final_state (fst (snd (u_execute K H c w i))) = Inl RuntimeError \<and>
      final_state (fst (snd (execute K H c w i n))) = Inl RuntimeError) \<and>
   (j < passes c n \<and> nth_pass K H c i w j = Some (Inl e) \<longrightarrow>
      (\<exists>e'. fst (execute K H c w i n) = Inl e') \<and>
      final_state (fst (snd (execute K H c w i n))) = Inl RuntimeError) \<and>
   (fst (execute K H c w i n) = Inl e \<longrightarrow>
      u_final_state (fst (snd (execute K H c w i n))) = None \<or>
      (\<exists>j s. j < passes c n \<and> nth_pass K H c i w j = Some (Inr s) \<and>
         (Suc j = passes c n \<or> (\<exists>e'. nth_shot K H c i w j = Some (Inl e'))) \<and>
         u_final_state (fst (snd (execute K H c w i n))) = Some s))"
proof -
  have 1: "final_state (fst (snd (u_execute K H c w i))) = Inl RuntimeError \<and>
      final_state (fst (snd (execute K H c w i n))) = Inl RuntimeError"
    if "fst (u_execute K H c w i) = Inl e"
    using that first_pass_failed [OF that, of n]
    by (simp add: final_state_def u_execute_final_state)
  have 2: "(\<exists>e'. fst (execute K H c w i n) = Inl e') \<and>
      final_state (fst (snd (execute K H c w i n))) = Inl RuntimeError"
    if "j < passes c n \<and> nth_pass K H c i w j = Some (Inl e)"
    using that failed_pass_raises by blast
  note 3 = failed_call_final_state [of K H c w i n e]
  from 1 2 3 show ?thesis by blast
qed

text \<open>
  Claim C9, as the code has it. On a freshly constructed circuit \<open>final_state\<close> raises.
  Right after a pass of \<^verbatim>\<open>_execute\<close> that completed it returns the state of that pass.
  Right after an \<^verbatim>\<open>execute\<close> call that completed and ran the queue at least once it
  returns the state of the last pass of that call: the pass made in the world that the
  shots before it left, which outside repeated execution is the one pass of the call.
  A call in which a pass fails clears it again, whatever it held before.
\<close>

theorem final_state_after_execution:
  "final_state (Circuit k) = Inl RuntimeError \<and>
   final_state (DensityMatrixCircuit k) = Inl RuntimeError \<and>
   (fst (u_execute K H c w i) = Inr s \<longrightarrow>
      final_state (fst (snd (u_execute K H c w i))) = Inr s) \<and>
   (execute K H c w i n = (Inr r, c', w') \<and> 0 < passes c n \<longrightarrow>
      nth_pass K H c i w (passes c n - 1) = Some (final_state c') \<and>
      (\<exists>s'. final_state c' = Inr s')) \<and>
   (execute K H c w i n = (Inr r, c', w') \<and> (repeated_execution c \<longrightarrow> n = None) \<longrightarrow>
      final_state c' = fst (u_execute K H c w i)) \<and>
   (j < passes c n \<and> nth_pass K H c i w j = Some (Inl e) \<longrightarrow>
      final_state (fst (snd (execute K H c w i n))) = Inl RuntimeError)"
proof -
  have 1: "final_state (Circuit k) = Inl RuntimeError"
    by (simp add: final_state_def Circuit_def)
  have 2: "final_state (DensityMatrixCircuit k) = Inl RuntimeError"
    by (simp add: final_state_def DensityMatrixCircuit_def Circuit_def)
  have 3: "final_state (fst (snd (u_execute K H c w i))) = Inr s"
    if "fst (u_execute K H c w i) = Inr s"
    using that by (simp add: final_state_def u_execute_final_state)
  have 4: "nth_pass K H c i w (passes c n - 1) = Some (final_state c') \<and>
      (\<exists>s'. final_state c' = Inr s')"
    if "execute K H c w i n = (Inr r, c', w') \<and> 0 < passes c n"
    using that completed_call_final_state by blast
  have 5: "final_state c' = fst (u_execute K H c w i)"
    if a: "execute K H c w i n = (Inr r, c', w') \<and> (repeated_execution c \<longrightarrow> n = None)"
  proof -
    from a have p: "passes c n = 1"
      by (cases n; cases "repeated_execution c") (simp_all add: passes_def)
    with a completed_call_final_state [of K H c w i n r c' w'] show ?thesis
      by (simp add: nth_pass_0)
  qed
  have 6: "final_state (fst (snd (execute K H c w i n))) = Inl RuntimeError"
    if "j < passes c n \<and> nth_pass K H c i w j = Some (Inl e)"
    using that failed_pass_raises by blast
  from 1 2 3 4 5 6 show ?thesis by blast
qed

section \<open>Evaluation of the examples\<close>

lemmas example_defs =
  X_circuit_def noisy_circuit_def ket0_def ket1_def Circuit_def example_store_def
  example_world_def numpy_like_def tensorflow_like_def plain_gate_def X_gate_def
  oom_gate_def flip_channel_def M_gate_def RX_gate_def failing_circuit_def
  flaky_channel_def flaky_circuit_def oom_M_gate_def sampling_fails_circuit_def
  layer_gate_def rx_circuit_def
  measured_circuit_def custom_backend_def

lemmas exec_defs =
  execute_def repeated_execute_def device_execute_def u_execute_def run_queue_def
  get_initial_state_def cast_initial_state_def Circuit_cast_initial_state_def
  K_initial_state_def K_reshape_def K_stack_def K_copy_def K_cast_def getitem_def
  final_state_def single_shot_def


lemmas pass_defs = nth_pass_def nth_shot_def passes_def

lemma constructed_examples:
  "constructed X_circuit" "constructed noisy_circuit" "constructed measured_circuit"
  "constructed (DensityMatrixCircuit 1)"
  by (simp_all add: constructed_def example_defs DensityMatrixCircuit_def)

text \<open>
  Claim C7. \<^verbatim>\<open>compile\<close> fails with \<open>RuntimeError\<close> when the circuit is already compiled,
  when its queue is empty, or when the backend uses custom operators; otherwise it
  installs the compiled handle, and a second call on the compiled circuit fails.
\<close>

theorem compile_errors:
  "compile K c =
     (if queue c = [] \<or> custom_gates K \<or> u_compiled_execute c \<noteq> None then Inl RuntimeError
      else Inr (c\<lparr>u_compiled_execute := Some CompiledExecute\<rparr>)) \<and>
   (compile K c = Inr c' \<longrightarrow> compile K c' = Inl RuntimeError)"
  by (auto simp: compile_def split: if_splits)

theorem compile_errors_witness:
  "compile numpy_like X_circuit = Inr (X_circuit\<lparr>u_compiled_execute := Some CompiledExecute\<rparr>) \<and>
   compile numpy_like (X_circuit\<lparr>u_compiled_execute := Some CompiledExecute\<rparr>) = Inl RuntimeError"
proof -
  have h: "compile numpy_like X_circuit =
             Inr (X_circuit\<lparr>u_compiled_execute := Some CompiledExecute\<rparr>)"
    by (simp add: compile_def example_defs)
  from compile_errors [of numpy_like X_circuit
      "X_circuit\<lparr>u_compiled_execute := Some CompiledExecute\<rparr>"] h
  show ?thesis by blast
qed

text \<open>
  Claim C6. For a state-vector circuit of \<open>n\<close> qubits, an initial state that is not of a
  tensor type fails with \<open>TypeError\<close>, and a tensor whose shape is not \<open>(2^n,)\<close> fails with
  \<open>ValueError\<close>.
\<close>

theorem get_initial_state_errors:
  assumes "constructed c" and "\<not> density_matrix c"
  shows "get_initial_state c (Some PyObject) = Inl TypeError \<and>
         (shape t \<noteq> [2 ^ nqubits c] \<longrightarrow>
            get_initial_state c (Some (PyTensor t)) = Inl ValueError)"
  using assms
  by (simp add: constructed_def get_initial_state_def cast_initial_state_def
      Circuit_cast_initial_state_def K_cast_def Circuit_def)

theorem get_initial_state_errors_witness:
  "constructed X_circuit \<and> \<not> density_matrix X_circuit \<and>
   shape (K_outer ket0 ket0) \<noteq> [2 ^ nqubits X_circuit] \<and>
   get_initial_state X_circuit (Some PyObject) = Inl TypeError \<and>
   get_initial_state X_circuit (Some (PyTensor (K_outer ket0 ket0))) = Inl ValueError"
proof -
  have 1: "constructed X_circuit" by (rule constructed_examples)
  have 2: "\<not> density_matrix X_circuit" by (simp add: example_defs)
  have 3: "shape (K_outer ket0 ket0) \<noteq> [2 ^ nqubits X_circuit]"
    by (simp add: K_outer_def example_defs)
  from get_initial_state_errors [OF 1 2, of "K_outer ket0 ket0"] 1 2 3
  show ?thesis by blast
qed

theorem promotion_correctness_witness:
  "constructed (DensityMatrixCircuit 1) \<and> density_matrix (DensityMatrixCircuit 1) \<and>
   shape ket1 = [2 ^ nqubits (DensityMatrixCircuit 1)] \<and>
   fst (execute numpy_like example_store (DensityMatrixCircuit 1) example_world
          (Some (PyTensor (K_outer ket1 (K_conj ket1)))) None) =
     Inr (State \<lparr>shape = [2, 2], dtype = DTYPECPX, data = [0, 0, 0, 1]\<rparr>) \<and>
   execute numpy_like example_store (DensityMatrixCircuit 1) example_world
     (Some (PyTensor ket1)) None =
   execute numpy_like example_store (DensityMatrixCircuit 1) example_world
     (Some (PyTensor (K_outer ket1 (K_conj ket1)))) None"
proof -
  have 1: "constructed (DensityMatrixCircuit 1)" by (rule constructed_examples)
  have 2: "density_matrix (DensityMatrixCircuit 1)"
    by (simp add: DensityMatrixCircuit_def)
  have 3: "shape ket1 = [2 ^ nqubits (DensityMatrixCircuit 1)]"
    by (simp add: DensityMatrixCircuit_def example_defs)
  have 4: "fst (execute numpy_like example_store (DensityMatrixCircuit 1) example_world
          (Some (PyTensor (K_outer ket1 (K_conj ket1)))) None) =
     Inr (State \<lparr>shape = [2, 2], dtype = DTYPECPX, data = [0, 0, 0, 1]\<rparr>)"
    by (simp add: exec_defs example_defs DensityMatrixCircuit_def
        DensityMatrixCircuit_cast_initial_state_def K_outer_def K_conj_def)
  from promotion_correctness [OF 1 2 3] 1 2 3 4 show ?thesis by blast
qed

theorem failed_execution_final_state_witness:
  "fst (u_execute numpy_like example_store failing_circuit example_world None) =
     Inl ResourceExhaustedError \<and>
   final_state (fst (snd (u_execute numpy_like example_store failing_circuit example_world None))) =
     Inl RuntimeError \<and>
   final_state (fst (snd (execute numpy_like example_store failing_circuit example_world None None))) =
     Inl RuntimeError \<and>
   1 < passes flaky_circuit (Some 2) \<and>
   nth_pass numpy_like example_store flaky_circuit None example_world 0 = Some (Inr ket1) \<and>
   nth_pass numpy_like example_store flaky_circuit None example_world 1 =
     Some (Inl ResourceExhaustedError) \<and>
   fst (execute numpy_like example_store flaky_circuit example_world None (Some 2)) =
     Inl RuntimeError \<and>
   final_state (fst (snd (execute numpy_like example_store flaky_circuit example_world None (Some 2)))) =
     Inl RuntimeError \<and>
   execute numpy_like example_store sampling_fails_circuit example_world None (Some 1) =
     (Inl ResourceExhaustedError, sampling_fails_circuit\<lparr>u_final_state := Some ket1\<rparr>,
      example_world) \<and>
   (\<exists>j s. j < passes sampling_fails_circuit (Some 1) \<and>
      nth_pass numpy_like example_store sampling_fails_circuit None example_world j =
        Some (Inr s) \<and>
      (Suc j = passes sampling_fails_circuit (Some 1) \<or>
       (\<exists>e'. nth_shot numpy_like example_store sampling_fails_circuit None example_world j =
          Some (Inl e'))) \<and>
      Some ket1 = Some s)"
proof -
  have 1: "fst (u_execute numpy_like example_store failing_circuit example_world None) =
     Inl ResourceExhaustedError"
    by (simp add: exec_defs example_defs)
  have 2: "1 < passes flaky_circuit (Some 2)"
    by (simp add: pass_defs example_defs)
  have 3: "nth_pass numpy_like example_store flaky_circuit None example_world 1 =
     Some (Inl ResourceExhaustedError)"
    by (simp add: pass_defs exec_defs example_defs)
  have 4: "nth_pass numpy_like example_store flaky_circuit None example_world 0 = Some (Inr ket1)"
    by (simp add: pass_defs exec_defs example_defs)
  have 5: "fst (execute numpy_like example_store flaky_circuit example_world None (Some 2)) =
     Inl RuntimeError"
    by (simp add: exec_defs example_defs eval_nat_numeral)
  have 6: "execute numpy_like example_store sampling_fails_circuit example_world None (Some 1) =
     (Inl ResourceExhaustedError, sampling_fails_circuit\<lparr>u_final_state := Some ket1\<rparr>,
      example_world)"
    by (simp add: exec_defs example_defs)
  note a = failed_execution_final_state [of numpy_like example_store failing_circuit
      example_world None ResourceExhaustedError None 0]
  note b = failed_execution_final_state [of numpy_like example_store flaky_circuit
      example_world None ResourceExhaustedError "Some 2" 1]
  note c = failed_execution_final_state [of numpy_like example_store sampling_fails_circuit
      example_world None ResourceExhaustedError "Some 1" 0]
  from a 1 have A: "final_state (fst (snd (u_execute numpy_like example_store failing_circuit
      example_world None))) = Inl RuntimeError"
    "final_state (fst (snd (execute numpy_like example_store failing_circuit example_world
      None None))) = Inl RuntimeError"
    by blast+
  from b 2 3 have B: "final_state (fst (snd (execute numpy_like example_store flaky_circuit
      example_world None (Some 2)))) = Inl RuntimeError"
    by blast
  from c 6 have C: "\<exists>j s. j < passes sampling_fails_circuit (Some 1) \<and>
      nth_pass numpy_like example_store sampling_fails_circuit None example_world j =
        Some (Inr s) \<and>
      (Suc j = passes sampling_fails_circuit (Some 1) \<or>
       (\<exists>e'. nth_shot numpy_like example_store sampling_fails_circuit None example_world j =
          Some (Inl e'))) \<and>
      Some ket1 = Some s"
    by simp
  from 1 2 3 4 5 6 A B C show ?thesis by blast
qed

theorem stale_final_state_counterexample:
  "fst (snd (execute numpy_like example_store X_circuit example_world None None))
     \<lparr>queue := [0, 1]\<rparr> = failing_circuit \<and>
   final_state failing_circuit = Inr ket1 \<and>
   fst (execute numpy_like example_store failing_circuit example_world None None) =
     Inl RuntimeError \<and>
   u_final_state
     (fst (snd (execute numpy_like example_store failing_circuit example_world None None))) =
     None \<and>
   final_state
     (fst (snd (execute numpy_like example_store failing_circuit example_world None None))) =
     Inl RuntimeError"
  by (simp add: exec_defs example_defs)

theorem final_state_after_execution_witness:
  "fst (u_execute numpy_like example_store X_circuit example_world None) = Inr ket1 \<and>
   final_state (fst (snd (u_execute numpy_like example_store X_circuit example_world None))) =
     Inr ket1 \<and>
   execute numpy_like example_store noisy_circuit example_world None (Some 2) =
     (Inr (State \<lparr>shape = [2, 2], dtype = DTYPECPX, data = [0, 1, 1, 0]\<rparr>),
      noisy_circuit\<lparr>u_final_state := Some ket0\<rparr>, example_world\<lparr>rng := 2\<rparr>) \<and>
   passes noisy_circuit (Some 2) = 2 \<and>
   nth_pass numpy_like example_store noisy_circuit None example_world 0 = Some (Inr ket1) \<and>
   nth_pass numpy_like example_store noisy_circuit None example_world
     (passes noisy_circuit (Some 2) - 1) =
     Some (final_state (noisy_circuit\<lparr>u_final_state := Some ket0\<rparr>)) \<and>
   final_state (noisy_circuit\<lparr>u_final_state := Some ket0\<rparr>) = Inr ket0 \<and>
   execute numpy_like example_store X_circuit example_world None None =
     (Inr (State ket1), X_circuit\<lparr>u_final_state := Some ket1\<rparr>, example_world) \<and>
   final_state (X_circuit\<lparr>u_final_state := Some ket1\<rparr>) =
     fst (u_execute numpy_like example_store X_circuit example_world None) \<and>
   0 < passes failing_circuit None \<and>
   nth_pass numpy_like example_store failing_circuit None example_world 0 =
     Some (Inl ResourceExhaustedError) \<and>
   final_state failing_circuit = Inr ket1 \<and>
   final_state (fst (snd (execute numpy_like example_store failing_circuit example_world None None))) =
     Inl RuntimeError"
proof -
  have 1: "fst (u_execute numpy_like example_store X_circuit example_world None) = Inr ket1"
    by (simp add: exec_defs example_defs)
  have 2: "execute numpy_like example_store noisy_circuit example_world None (Some 2) =
     (Inr (State \<lparr>shape = [2, 2], dtype = DTYPECPX, data = [0, 1, 1, 0]\<rparr>),
      noisy_circuit\<lparr>u_final_state := Some ket0\<rparr>, example_world\<lparr>rng := 2\<rparr>)"
    by (simp add: exec_defs example_defs eval_nat_numeral)
  have 3: "passes noisy_circuit (Some 2) = 2"
    by (simp add: pass_defs example_defs)
  have 4: "nth_pass numpy_like example_store noisy_circuit None example_world 0 = Some (Inr ket1)"
    by (simp add: pass_defs exec_defs example_defs)
  have 5: "execute numpy_like example_store X_circuit example_world None None =
     (Inr (State ket1), X_circuit\<lparr>u_final_state := Some ket1\<rparr>, example_world)"
    by (simp add: exec_defs example_defs)
  have 6: "repeated_execution X_circuit \<longrightarrow> (None :: int option) = None" by simp
  have 7: "0 < passes failing_circuit None"
    by (simp add: pass_defs example_defs)
  have 8: "nth_pass numpy_like example_store failing_circuit None example_world 0 =
     Some (Inl ResourceExhaustedError)"
    by (simp add: pass_defs exec_defs example_defs)
  have 9: "final_state failing_circuit = Inr ket1"
    by (simp add: final_state_def example_defs)
  have 10: "final_state (noisy_circuit\<lparr>u_final_state := Some ket0\<rparr>) = Inr ket0"
    by (simp add: final_state_def)
  note a = final_state_after_execution [of 1 numpy_like example_store X_circuit example_world
      None ket1 None "State ket1" "X_circuit\<lparr>u_final_state := Some ket1\<rparr>" example_world]
  note b = final_state_after_execution [of 1 numpy_like example_store noisy_circuit
      example_world None ket1 "Some 2"
      "State \<lparr>shape = [2, 2], dtype = DTYPECPX, data = [0, 1, 1, 0]\<rparr>"
      "noisy_circuit\<lparr>u_final_state := Some ket0\<rparr>" "example_world\<lparr>rng := 2\<rparr>"]
  note c = final_state_after_execution [of 1 numpy_like example_store failing_circuit
      example_world None ket1 None "State ket1" failing_circuit example_world 0
      ResourceExhaustedError]
  from a 1 5 6 have A:
    "final_state (fst (snd (u_execute numpy_like example_store X_circuit example_world None))) =
     Inr ket1"
    "final_state (X_circuit\<lparr>u_final_state := Some ket1\<rparr>) =
     fst (u_execute numpy_like example_store X_circuit example_world None)"
    by blast+
  from b 2 3 have B: "nth_pass numpy_like example_store noisy_circuit None example_world
     (passes noisy_circuit (Some 2) - 1) =
     Some (final_state (noisy_circuit\<lparr>u_final_state := Some ket0\<rparr>))"
    by simp
  from c 7 8 have C: "final_state (fst (snd (execute numpy_like example_store failing_circuit
     example_world None None))) = Inl RuntimeError"
    by blast
  from 1 2 3 4 5 7 8 9 10 A B C show ?thesis by blast
qed

theorem final_state_cleared_counterexample:
  "execute numpy_like example_store X_circuit example_world None None =
     (Inr (State ket1), X_circuit\<lparr>u_final_state := Some ket1\<rparr>, example_world) \<and>
   final_state (X_circuit\<lparr>u_final_state := Some ket1\<rparr>) = Inr ket1 \<and>
   fst (execute numpy_like example_store (X_circuit\<lparr>u_final_state := Some ket1\<rparr>)
          example_world (Some PyObject) None) = Inl TypeError \<and>
   final_state
     (fst (snd (execute numpy_like example_store (X_circuit\<lparr>u_final_state := Some ket1\<rparr>)
                  example_world (Some PyObject) None))) = Inl RuntimeError"
  by (simp add: exec_defs example_defs)

theorem zero_shots_counterexample:
  "fst (execute numpy_like example_store noisy_circuit example_world None (Some 0)) =
     Inl ValueError \<and>
   fst (execute tensorflow_like example_store noisy_circuit example_world None (Some 0)) =
     Inr (State \<lparr>shape = [0], dtype = DTYPE, data = []\<rparr>) \<and>
   [0] \<noteq> [nat 0, 2 ^ nqubits noisy_circuit]"
  by (simp add: exec_defs example_defs)

theorem zero_shots_final_state_counterexample:
  "repeated_execution noisy_circuit \<and>
   execute tensorflow_like example_store noisy_circuit example_world None (Some 0) =
     (Inr (State \<lparr>shape = [0], dtype = DTYPE, data = []\<rparr>),
      noisy_circuit\<lparr>u_final_state := None\<rparr>, example_world) \<and>
   final_state (noisy_circuit\<lparr>u_final_state := None\<rparr>) = Inl RuntimeError"
  by (simp add: exec_defs example_defs)

lemma measured_shots:
  "independent_shots numpy_like example_store measured_circuit None (nat 2) example_world =
     (Inr [(ket1, \<lparr>shape = [], dtype = DTYPEINT, data = [1]\<rparr>),
           (ket0, \<lparr>shape = [], dtype = DTYPEINT, data = [0]\<rparr>)],
      example_world\<lparr>rng := 2\<rparr>)"
  by (simp add: exec_defs example_defs eval_nat_numeral)

theorem repeated_execution_shots_witness:
  "constructed measured_circuit \<and> \<not> density_matrix measured_circuit \<and>
   repeated_execution measured_circuit \<and>
   fst (independent_shots numpy_like example_store measured_circuit None (nat 2) example_world) =
     Inr [(ket1, \<lparr>shape = [], dtype = DTYPEINT, data = [1]\<rparr>),
          (ket0, \<lparr>shape = [], dtype = DTYPEINT, data = [0]\<rparr>)] \<and>
   (\<exists>t. fst (execute numpy_like example_store measured_circuit example_world None (Some 2)) =
          Inr (Result \<lparr>cr_measurement_tuples = [(''register0'', [0])],
                        measurement_gate_result =
                          \<lparr>gr_qubits = [0], decimal_samples = t\<rparr>\<rparr>) \<and>
        shape t = [2] \<and> data t = [1, 0])"
proof -
  have 1: "constructed measured_circuit" by (rule constructed_examples)
  have 2: "\<not> density_matrix measured_circuit" by (simp add: example_defs)
  have 3: "repeated_execution measured_circuit" by (simp add: example_defs)
  have 4: "custom_gates numpy_like \<longrightarrow>
           list_all (\<lambda>g. keeps_shape (gate_heap example_store g)) (queue measured_circuit)"
    by (simp add: numpy_like_def)
  have 5: "fst (independent_shots numpy_like example_store measured_circuit None (nat 2)
                  example_world) =
     Inr [(ket1, \<lparr>shape = [], dtype = DTYPEINT, data = [1]\<rparr>),
          (ket0, \<lparr>shape = [], dtype = DTYPEINT, data = [0]\<rparr>)]"
    using measured_shots by simp
  have 6: "measurement_gate measured_circuit = Some 3"
    "measurement_tuples measured_circuit = [(''register0'', [0])]"
    "qubits (gate_heap example_store 3) = [0]"
    by (simp_all add: example_defs)
  from repeated_execution_shots [OF 1 2 3 _ 4 5] 1 2 3 5 show ?thesis
    by (simp add: 6)
qed

lemma keeps_shape_flip: "keeps_shape flip_channel"
  by (auto simp: keeps_shape_def flip_channel_def plain_gate_def)

lemma noisy_custom_run:
  "execute custom_backend example_store noisy_circuit example_world None (Some 2) =
     (Inr (State \<lparr>shape = [2, 2], dtype = DTYPECPX, data = [0, 1, 1, 0]\<rparr>),
      noisy_circuit\<lparr>u_final_state := Some ket0\<rparr>, example_world\<lparr>rng := 2\<rparr>)"
  by (simp add: exec_defs example_defs eval_nat_numeral)

theorem repeated_execution_final_state_witness:
  "constructed noisy_circuit \<and> \<not> density_matrix noisy_circuit \<and>
   repeated_execution noisy_circuit \<and>
   list_all (\<lambda>g. keeps_shape (gate_heap example_store g)) (queue noisy_circuit) \<and>
   execute custom_backend example_store noisy_circuit example_world None (Some 2) =
     (Inr (State \<lparr>shape = [2, 2], dtype = DTYPECPX, data = [0, 1, 1, 0]\<rparr>),
      noisy_circuit\<lparr>u_final_state := Some ket0\<rparr>, example_world\<lparr>rng := 2\<rparr>) \<and>
   (\<exists>ps. fst (independent_shots custom_backend example_store noisy_circuit None (nat 2)
                 example_world) = Inr ps \<and> ps \<noteq> [] \<and>
         final_state (noisy_circuit\<lparr>u_final_state := Some ket0\<rparr>) = Inr (fst (last ps)) \<and>
         shape (fst (last ps)) = [2 ^ nqubits noisy_circuit] \<and>
         (\<exists>w0. fst (u_execute custom_backend example_store noisy_circuit w0 None) =
                 Inr (fst (last ps))) \<and>
         State \<lparr>shape = [2, 2], dtype = DTYPECPX, data = [0, 1, 1, 0]\<rparr> \<noteq> State (fst (last ps)))"
proof -
  have 1: "constructed noisy_circuit" by (rule constructed_examples)
  have 2: "\<not> density_matrix noisy_circuit" by (simp add: example_defs)
  have 3: "repeated_execution noisy_circuit" by (simp add: example_defs)
  have 4: "list_all (\<lambda>g. keeps_shape (gate_heap example_store g)) (queue noisy_circuit)"
    by (simp add: noisy_circuit_def example_store_def keeps_shape_flip)
  then have 5: "custom_gates custom_backend \<longrightarrow>
           list_all (\<lambda>g. keeps_shape (gate_heap example_store g)) (queue noisy_circuit)"
    by simp
  note 6 = noisy_custom_run
  from repeated_execution_final_state [OF 1 2 3 _ 5 6] 1 2 3 4 6 show ?thesis
    by simp
qed

section \<open>Properties of the queue and of copies\<close>

lemma set_nqubits_Inl:
  "is_prepared (gate_heap H g) \<and> gate_nqubits (gate_heap H g) \<noteq> Some (nqubits c) \<Longrightarrow>
   set_nqubits c g H = Inl RuntimeError"
  by (simp add: set_nqubits_def)

lemma set_nqubits_Inr:
  assumes "set_nqubits c g H = Inr H'"
  shows "gate_heap H' g =
           (gate_heap H g)\<lparr>gate_nqubits := Some (nqubits c), is_prepared := True\<rparr>"
    and "\<And>r. r \<noteq> g \<Longrightarrow> gate_heap H' r = gate_heap H r"
    and "is_prepared (gate_heap H g) \<Longrightarrow> gate_nqubits (gate_heap H g) = Some (nqubits c)"
    and "tensor_heap H' = tensor_heap H" and "next_ref H' = next_ref H"
  using assms by (auto simp: set_nqubits_def prepare_def split: if_splits)

lemma set_nqubits_keeps_inv:
  assumes "queue_inv H c2" and "set_nqubits c g H = Inr H'"
  shows "queue_inv H' c2"
  unfolding queue_inv_def list_all_iff
proof
  fix r assume r: "r \<in> set (queue c2)"
  with assms(1) have old: "is_prepared (gate_heap H r)"
    "gate_nqubits (gate_heap H r) = Some (nqubits c2)"
    by (simp_all add: queue_inv_def list_all_iff)
  show "is_prepared (gate_heap H' r) \<and> gate_nqubits (gate_heap H' r) = Some (nqubits c2)"
  proof (cases "r = g")
    case True
    with old set_nqubits_Inr(3) [OF assms(2)] have "nqubits c = nqubits c2" by simp
    with True set_nqubits_Inr(1) [OF assms(2)] show ?thesis by simp
  next
    case False
    with old set_nqubits_Inr(2) [OF assms(2)] show ?thesis by simp
  qed
qed

lemma queue_inv_append:
  assumes "queue_inv H c" and "set_nqubits c g H = Inr H'"
  shows "queue_inv H' (c\<lparr>queue := queue c @ [g]\<rparr>)"
proof -
  from set_nqubits_keeps_inv [OF assms] have "queue_inv H' c" .
  with set_nqubits_Inr(1) [OF assms(2)] show ?thesis
    by (simp add: queue_inv_def)
qed

lemma queue_inv_other:
  "queue_inv H (c\<lparr>queue := q\<rparr>) = list_all (\<lambda>g. is_prepared (gate_heap H g) \<and>
      gate_nqubits (gate_heap H g) = Some (nqubits c)) q"
  by (simp add: queue_inv_def)

lemma add_keeps_inv:
  assumes "queue_inv H c" and "queue_inv H c2" and "add c g H = (r, c', H')"
  shows "queue_inv H' c' \<and> queue_inv H' c2"
proof (cases "set_nqubits c g H")
  case (Inl e)
  with assms show ?thesis by (simp add: add_def)
next
  case (Inr H1)
  with assms(3) have "c' = c\<lparr>queue := queue c @ [g]\<rparr>" "H' = H1" by (simp_all add: add_def)
  with queue_inv_append [OF assms(1) Inr] set_nqubits_keeps_inv [OF assms(2) Inr]
  show ?thesis by simp
qed

lemma add_unitaries_keeps_inv:
  "queue_inv H c \<Longrightarrow> queue_inv H c2 \<Longrightarrow> add_unitaries c us H = (r, c', H') \<Longrightarrow>
   queue_inv H' c' \<and> queue_inv H' c2 \<and> nqubits c' = nqubits c"
proof (induction us arbitrary: c H)
  case Nil
  then show ?case by simp
next
  case (Cons u us)
  show ?case
  proof (cases "set_nqubits c u H")
    case (Inl e)
    with Cons.prems show ?thesis by simp
  next
    case (Inr H1)
    let ?c1 = "c\<lparr>queue := queue c @ [u]\<rparr>"
    from Cons.prems(3) Inr have rest: "add_unitaries ?c1 us H1 = (r, c', H')" by simp
    from Cons.IH [OF queue_inv_append [OF Cons.prems(1) Inr]
        set_nqubits_keeps_inv [OF Cons.prems(2) Inr] rest]
    show ?thesis by simp
  qed
qed

lemma prepare_keeps_inv:
  assumes "queue_inv H c2"
  shows "queue_inv (H\<lparr>gate_heap := (gate_heap H)(g := prepare (gate_heap H g))\<rparr>) c2"
  using assms by (auto simp: queue_inv_def list_all_iff prepare_def)

lemma add_layer_keeps_inv:
  assumes "queue_inv H c" and "queue_inv H c2" and "add_layer c g H = (r, c', H')"
  shows "queue_inv H' c' \<and> queue_inv H' c2"
proof -
  let ?H1 = "H\<lparr>gate_heap := (gate_heap H)(g := prepare (gate_heap H g))\<rparr>"
  obtain r1 c1 H2 where au: "add_unitaries c (unitaries (gate_heap ?H1 g)) ?H1 = (r1, c1, H2)"
    by (cases "add_unitaries c (unitaries (gate_heap ?H1 g)) ?H1")
  from add_unitaries_keeps_inv [OF prepare_keeps_inv [OF assms(1)]
      prepare_keeps_inv [OF assms(2)] au]
  have inv: "queue_inv H2 c1" "queue_inv H2 c2" by simp_all
  show ?thesis
  proof (cases r1)
    case (Some e)
    with assms(3) au inv show ?thesis by (simp add: add_layer_def Let_def)
  next
    case None
    show ?thesis
    proof (cases "additional_unitary (gate_heap H2 g)")
      case None
      with assms(3) au \<open>r1 = None\<close> inv show ?thesis by (simp add: add_layer_def Let_def)
    next
      case (Some a)
      show ?thesis
      proof (cases "set_nqubits c1 a H2")
        case (Inl e)
        with assms(3) au \<open>r1 = None\<close> Some inv show ?thesis
          by (simp add: add_layer_def Let_def)
      next
        case (Inr H3)
        with assms(3) au \<open>r1 = None\<close> Some
        have "c' = c1\<lparr>queue := queue c1 @ [a]\<rparr>" "H' = H3"
          by (simp_all add: add_layer_def Let_def)
        with queue_inv_append [OF inv(1) Inr] set_nqubits_keeps_inv [OF inv(2) Inr]
        show ?thesis by simp
      qed
    qed
  qed
qed


text \<open>
  Claim C8. Every gate in the queue of a circuit is prepared for the circuit's qubit
  count: this holds of a new circuit, \<^verbatim>\<open>set_nqubits\<close> fixes the count of a gate before the
  gate is appended, appending a gate that is already prepared for another count fails with
  \<open>RuntimeError\<close> and changes nothing, and each add operation (\<open>add\<close>, \<open>add_layer\<close>) keeps
  the invariant, of the circuit it adds to and of every other circuit that shares gate
  objects with it, also when it fails part of the way.
\<close>

theorem queue_invariant:
  "queue_inv H (Circuit k) \<and> queue_inv H (DensityMatrixCircuit k) \<and>
   (is_prepared (gate_heap H g) \<and> gate_nqubits (gate_heap H g) \<noteq> Some (nqubits c) \<longrightarrow>
      set_nqubits c g H = Inl RuntimeError \<and> add c g H = (Some RuntimeError, c, H)) \<and>
   (add c g H = (None, c', H') \<longrightarrow>
      queue c' = queue c @ [g] \<and> nqubits c' = nqubits c \<and>
      is_prepared (gate_heap H' g) \<and> gate_nqubits (gate_heap H' g) = Some (nqubits c)) \<and>
   (queue_inv H c \<and> queue_inv H c2 \<and> add c g H = (r, c', H') \<longrightarrow>
      queue_inv H' c' \<and> queue_inv H' c2) \<and>
   (queue_inv H c \<and> queue_inv H c2 \<and> add_layer c g H = (r, c', H') \<longrightarrow>
      queue_inv H' c' \<and> queue_inv H' c2)"
proof -
  have 1: "queue_inv H (Circuit k)" "queue_inv H (DensityMatrixCircuit k)"
    by (simp_all add: queue_inv_def Circuit_def DensityMatrixCircuit_def)
  have 2: "set_nqubits c g H = Inl RuntimeError \<and> add c g H = (Some RuntimeError, c, H)"
    if "is_prepared (gate_heap H g) \<and> gate_nqubits (gate_heap H g) \<noteq> Some (nqubits c)"
    using set_nqubits_Inl [OF that] by (simp add: add_def)
  have 3: "queue c' = queue c @ [g] \<and> nqubits c' = nqubits c \<and>
      is_prepared (gate_heap H' g) \<and> gate_nqubits (gate_heap H' g) = Some (nqubits c)"
    if a: "add c g H = (None, c', H')"
  proof (cases "set_nqubits c g H")
    case (Inl e)
    with a show ?thesis by (simp add: add_def)
  next
    case (Inr H1)
    with a have "c' = c\<lparr>queue := queue c @ [g]\<rparr>" "H' = H1" by (simp_all add: add_def)
    with set_nqubits_Inr(1) [OF Inr] show ?thesis by simp
  qed
  have 4: "queue_inv H' c' \<and> queue_inv H' c2"
    if "queue_inv H c \<and> queue_inv H c2 \<and> add c g H = (r, c', H')"
    using that add_keeps_inv by blast
  have 5: "queue_inv H' c' \<and> queue_inv H' c2"
    if "queue_inv H c \<and> queue_inv H c2 \<and> add_layer c g H = (r, c', H')"
    using that add_layer_keeps_inv by blast
  from 1 2 3 4 5 show ?thesis by blast
qed

lemmas queue_defs = add_def add_layer_def set_nqubits_def prepare_def queue_inv_def
  prepared_store_def

lemma triple: "x = (fst x, fst (snd x), snd (snd x))"
  by simp


theorem queue_invariant_witness:
  "fst (add (Circuit 3) 0 example_store) = None \<and>
   queue (fst (snd (add (Circuit 3) 0 example_store))) = [0] \<and>
   queue_inv prepared_store (fst (snd (add (Circuit 3) 0 example_store))) \<and>
   is_prepared (gate_heap prepared_store 0) \<and>
   gate_nqubits (gate_heap prepared_store 0) = Some 3 \<and>
   gate_nqubits (gate_heap prepared_store 0) \<noteq> Some (nqubits (Circuit 2)) \<and>
   set_nqubits (Circuit 2) 0 prepared_store = Inl RuntimeError \<and>
   add (Circuit 2) 0 prepared_store = (Some RuntimeError, Circuit 2, prepared_store) \<and>
   fst (add_layer (Circuit 1) 7 example_store) = None \<and>
   queue (fst (snd (add_layer (Circuit 1) 7 example_store))) = [0, 2, 1] \<and>
   queue_inv (snd (snd (add_layer (Circuit 1) 7 example_store)))
     (fst (snd (add_layer (Circuit 1) 7 example_store))) \<and>
   queue_inv (snd (snd (add_layer (Circuit 1) 7 example_store))) (Circuit 3)"
proof -
  have 1: "fst (add (Circuit 3) 0 example_store) = None"
    by (simp add: queue_defs example_defs)
  have 2: "add (Circuit 3) 0 example_store =
      (None, fst (snd (add (Circuit 3) 0 example_store)), prepared_store)"
    using 1 triple [of "add (Circuit 3) 0 example_store"] by (simp add: prepared_store_def)
  have 3: "queue_inv example_store (Circuit 3)"
    by (simp add: queue_inv_def Circuit_def)
  have 4: "is_prepared (gate_heap prepared_store 0) \<and>
      gate_nqubits (gate_heap prepared_store 0) \<noteq> Some (nqubits (Circuit 2))"
    by (simp add: queue_defs example_defs)
  have 5: "fst (add_layer (Circuit 1) 7 example_store) = None"
    by (simp add: queue_defs example_defs)
  have 6: "add_layer (Circuit 1) 7 example_store =
      (None, fst (snd (add_layer (Circuit 1) 7 example_store)),
       snd (snd (add_layer (Circuit 1) 7 example_store)))"
    using 5 triple [of "add_layer (Circuit 1) 7 example_store"] by simp
  have 7: "queue (fst (snd (add_layer (Circuit 1) 7 example_store))) = [0, 2, 1]"
    by (simp add: queue_defs example_defs)
  have 8: "queue_inv example_store (Circuit 1)"
    by (simp add: queue_inv_def Circuit_def)
  note a = queue_invariant [of example_store 3 0 "Circuit 3"
      "fst (snd (add (Circuit 3) 0 example_store))" prepared_store "Circuit 3" None]
  note b = queue_invariant [of prepared_store 3 0 "Circuit 2"]
  note c = queue_invariant [of example_store 3 7 "Circuit 1"
      "fst (snd (add_layer (Circuit 1) 7 example_store))"
      "snd (snd (add_layer (Circuit 1) 7 example_store))" "Circuit 3" None]
  from a 2 3 have A: "queue (fst (snd (add (Circuit 3) 0 example_store))) = queue (Circuit 3) @ [0]"
    "gate_nqubits (gate_heap prepared_store 0) = Some (nqubits (Circuit 3))"
    "queue_inv prepared_store (fst (snd (add (Circuit 3) 0 example_store)))"
    by blast+
  from b 4 have B: "set_nqubits (Circuit 2) 0 prepared_store = Inl RuntimeError"
    "add (Circuit 2) 0 prepared_store = (Some RuntimeError, Circuit 2, prepared_store)"
    by blast+
  from c 6 8 3 have C: "queue_inv (snd (snd (add_layer (Circuit 1) 7 example_store)))
     (fst (snd (add_layer (Circuit 1) 7 example_store)))"
    "queue_inv (snd (snd (add_layer (Circuit 1) 7 example_store))) (Circuit 3)"
    by blast+
  from A have A': "queue (fst (snd (add (Circuit 3) 0 example_store))) = [0]"
    "gate_nqubits (gate_heap prepared_store 0) = Some 3"
    by (simp_all add: Circuit_def)
  from 1 4 5 7 A(3) A' B C show ?thesis by blast
qed


lemmas copy_defs = fuse_copy_def copy_gate_def gate_parameters_def write_tensor_def
  rebind_parameters_def


text \<open>
  Claim C5, at a circuit with one fixed gate and one trainable rotation. \<^verbatim>\<open>_fuse_copy\<close>
  shares the fixed gate by reference and gives the trainable gate a new object, made by
  \<^verbatim>\<open>copy.copy\<close>: the new gate refers to the same parameter tensor as the original, and a
  write into the tensor through the copy changes the parameters of the original gate.
\<close>

theorem fuse_copy_shares_parameter_tensor:
  "queue (fst (fuse_copy rx_circuit example_store)) = [0, 8] \<and>
   trainable_gates (fst (fuse_copy rx_circuit example_store)) = [8] \<and>
   parameters (gate_heap (snd (fuse_copy rx_circuit example_store)) 8) = 7 \<and>
   parameters (gate_heap (snd (fuse_copy rx_circuit example_store)) 4) = 7 \<and>
   gate_parameters (snd (fuse_copy rx_circuit example_store)) 4 =
     \<lparr>shape = [1], dtype = DTYPE, data = [0]\<rparr> \<and>
   gate_parameters
     (write_tensor (parameters (gate_heap (snd (fuse_copy rx_circuit example_store)) 8))
        \<lparr>shape = [1], dtype = DTYPE, data = [1]\<rparr> (snd (fuse_copy rx_circuit example_store)))
     4 = \<lparr>shape = [1], dtype = DTYPE, data = [1]\<rparr>"
  by (simp add: copy_defs example_defs)

end
